theory Spec2Isabelle
  imports Main "HOL-Library.Char_ord" "HOL-Library.List_Lexorder"
begin

section \<open>NakedSun core: values, log messages, events\<close>

text \<open>
  A shallow embedding of \<^verbatim>\<open>nakedsun/core.py\<close> (Python 2): the signal handler
  \<^verbatim>\<open>signal_HUP\<close>, the identity transition \<^verbatim>\<open>assume_uid\<close> and the supervisor
  \<^verbatim>\<open>main\<close>.

  The process is a record of its user id, group id, umask, the registry
  \<^verbatim>\<open>nakedsun.mudsys.pymodules\<close> and a trace: the list, in the order of execution, of
  the calls the code makes to its collaborators (the logger, the operating system, the
  importer, the event engine, the hook registry). Everything the code only reads
  (the password database, the settings, the file system, whether an import raises, how
  the event engine ends) is a field of the record \<open>env\<close>.

  Collaborators are taken to return normally wherever the source does not handle their
  failure; where the source has a \<^verbatim>\<open>try\<close>, each \<^verbatim>\<open>except\<close> clause is a branch of the
  model. \<^verbatim>\<open>sys.exit(n)\<close> is the outcome \<open>Exit n\<close>.
\<close>

text \<open>The values \<^verbatim>\<open>uid\<close>, \<^verbatim>\<open>gid\<close> and \<^verbatim>\<open>umask\<close> range over: \<^verbatim>\<open>None\<close>, an integer, a string.\<close>

datatype pyval = PNone | PInt int | PStr string

text \<open>The exceptions the supervisor distinguishes around the event engine; \<open>OtherException\<close>
  is any exception that none of its \<^verbatim>\<open>except\<close> clauses matches.\<close>

datatype exn = SystemCopyover | SystemExit | KeyboardInterrupt | OtherException

datatype outcome = Exit int | Uncaught exn

datatype oserror = OSError

datatype level = Naked | Debug | Info | Todo | Warning | Error | Critical | Exception

text \<open>A log message is the format string of the source (named by the constructor) with
  its arguments. Where the source picks between a message with a name and one without
  (\<^verbatim>\<open>pwd.getpwuid(uid).pw_name\<close> raising \<^verbatim>\<open>KeyError\<close>), the name is optional.\<close>

datatype msg =
    Banner
  | Cannot_find_library string
  | Changing_directory string
  | Loading_configuration
  | Initializing_network
  | Loading_compatibility_layer
  | Injecting_global_modules
  | Injecting string
  | Loading_library
  | Cannot_find_pymodules
  | Importing_module string
  | Pymodules_not_package
  | Import_error string string
  | Copyover_recovery
  | Entering_game_loop
  | Copyover
  | Exiting_normally
  | Invalid_umask pyval
  | No_such_user string
  | Assuming_UID int "string option"
  | Unable_UID int "string option"
  | Running_as_root
  | Do_not_run_as_root
  | Set_a_UID
  | No_such_group string
  | Assuming_GID int "string option"
  | Unable_GID int "string option"
  | Assuming_umask int int

datatype event =
    Log level msg
  | Log_initialize bool string string
  | Log_line
  | Log_shutdown
  | Os_setuid int
  | Os_setgid int
  | Os_umask int
  | Os_chdir string
  | Settings_initialize
  | Network_initialize "string option" "string option"
  | Call_assume_uid
  | Import_nmcompat
  | Sys_modules_set string
  | Sys_path_insert string
  | Import string
  | Signal_signal
  | Engine_start
  | Print string
  | Hooks_run string

datatype pymodule = Module string

record state =
  proc_uid :: int
  proc_gid :: int
  proc_umask :: int
  pymodules :: "string \<rightharpoonup> pymodule"
  hup_handler :: bool
  trace :: "event list"

record env =
  do_uid :: bool
  has_SIGHUP :: bool
  int_of_str :: "string \<Rightarrow> int option"
  getpwnam :: "string \<Rightarrow> int option"
  getpwuid :: "int \<Rightarrow> string option"
  getgrnam :: "string \<Rightarrow> int option"
  getgrgid :: "int \<Rightarrow> string option"
  settings_get :: "string \<Rightarrow> pyval"
  getcwd :: string
  realpath :: "string \<Rightarrow> string"
  path_exists :: "string \<Rightarrow> bool"
  path_isfile :: "string \<Rightarrow> bool"
  path_isdir :: "string \<Rightarrow> bool"
  listdir :: "string \<Rightarrow> string list"
  import_raises :: "string \<Rightarrow> bool"
  engine_start :: "exn option"

record args =
  args_lib :: string
  args_addr :: "string option"
  args_http_addr :: "string option"
  args_log :: string
  args_level :: string
  args_color :: bool
  args_uid :: "string option"
  args_gid :: "string option"
  args_umask :: "string option"
  args_early :: bool

definition emit :: "event list \<Rightarrow> state \<Rightarrow> state" where
  "emit es st = st\<lparr>trace := trace st @ es\<rparr>"

section \<open>Python and operating-system primitives\<close>

text \<open>\<^verbatim>\<open>int(v)\<close>: \<open>None\<close> stands for the \<^verbatim>\<open>TypeError\<close> (\<^verbatim>\<open>int(None)\<close>) or
  \<^verbatim>\<open>ValueError\<close> (a string that is no integer literal) the source catches. What
  \<^verbatim>\<open>int\<close> makes of a string is the environment's \<open>int_of_str\<close>.\<close>

definition py_int :: "env \<Rightarrow> pyval \<Rightarrow> int option" where
  "py_int e v = (case v of PNone \<Rightarrow> None | PInt n \<Rightarrow> Some n | PStr s \<Rightarrow> int_of_str e s)"

text \<open>Truth value of \<^verbatim>\<open>if v:\<close>.\<close>

definition truthy :: "pyval \<Rightarrow> bool" where
  "truthy v = (case v of PNone \<Rightarrow> False | PInt n \<Rightarrow> n \<noteq> 0 | PStr s \<Rightarrow> s \<noteq> [])"

definition startswith :: "string \<Rightarrow> string \<Rightarrow> bool" where
  "startswith s p = (take (length p) s = p)"

definition endswith :: "string \<Rightarrow> string \<Rightarrow> bool" where
  "endswith s p = (length p \<le> length s \<and> drop (length s - length p) s = p)"

text \<open>\<^verbatim>\<open>os.path.join(a, b)\<close> of \<^verbatim>\<open>posixpath\<close>, for two components.\<close>

definition os_path_join :: "string \<Rightarrow> string \<Rightarrow> string" where
  "os_path_join a b =
     (if startswith b ''/'' then b
      else if a = [] \<or> endswith a ''/'' then a @ b
      else a @ ''/'' @ b)"

text \<open>
  The process has one user id and one group id (what \<^verbatim>\<open>os.getuid()\<close> and
  \<^verbatim>\<open>os.getgid()\<close> return). \<^verbatim>\<open>os.setuid\<close> and \<^verbatim>\<open>os.setgid\<close> are recorded in the
  trace whether they succeed or not; a call that changes an id is permitted exactly
  when the process's user id is 0, and raises \<^verbatim>\<open>OSError\<close> otherwise. \<^verbatim>\<open>os.umask\<close>
  never fails, keeps the permission bits of its argument and returns the previous mask.
\<close>

definition os_setuid :: "int \<Rightarrow> state \<Rightarrow> (oserror \<times> state) + state" where
  "os_setuid n st =
     (let st1 = emit [Os_setuid n] st in
      if proc_uid st = 0 \<or> n = proc_uid st then Inr (st1\<lparr>proc_uid := n\<rparr>)
      else Inl (OSError, st1))"

definition os_setgid :: "int \<Rightarrow> state \<Rightarrow> (oserror \<times> state) + state" where
  "os_setgid n st =
     (let st1 = emit [Os_setgid n] st in
      if proc_uid st = 0 \<or> n = proc_gid st then Inr (st1\<lparr>proc_gid := n\<rparr>)
      else Inl (OSError, st1))"

definition os_umask :: "int \<Rightarrow> state \<Rightarrow> int \<times> state" where
  "os_umask m st = (proc_umask st, (emit [Os_umask m] st)\<lparr>proc_umask := m mod 512\<rparr>)"

section \<open>The signal handler\<close>



section \<open>The identity transition \<^verbatim>\<open>assume_uid\<close>\<close>

text \<open>\<^verbatim>\<open>main\<close> calls \<^verbatim>\<open>assume_uid\<close> only where \<^verbatim>\<open>os.getuid\<close> exists; the modules
  \<^verbatim>\<open>pwd\<close> and \<^verbatim>\<open>grp\<close> exist there, and their lookups are the fields \<open>getpwnam\<close>,
  \<open>getpwuid\<close>, \<open>getgrnam\<close> and \<open>getgrgid\<close> of the environment (\<open>None\<close> for
  \<^verbatim>\<open>KeyError\<close>).\<close>

text \<open>Lines 67 to 72 (and 74 to 79): a missing value is read from the settings, and a
  value \<^verbatim>\<open>int\<close> accepts is replaced by the integer.\<close>

definition value_or_setting :: "env \<Rightarrow> string \<Rightarrow> pyval \<Rightarrow> pyval" where
  "value_or_setting e key v =
     (let v1 = (if v = PNone then settings_get e key else v) in
      case py_int e v1 of Some n \<Rightarrow> PInt n | None \<Rightarrow> v1)"

text \<open>Lines 81 to 88: the umask; a value \<^verbatim>\<open>int\<close> rejects becomes \<^verbatim>\<open>None\<close>, with a
  warning when the value is true as a condition.\<close>

definition umask_value :: "env \<Rightarrow> pyval \<Rightarrow> state \<Rightarrow> pyval \<times> state" where
  "umask_value e umask st =
     (let umask1 = (if umask = PNone then settings_get e ''umask'' else umask) in
      case py_int e umask1 of
        Some n \<Rightarrow> (PInt n, st)
      | None \<Rightarrow> (PNone, if truthy umask1 then emit [Log Warning (Invalid_umask umask1)] st else st))"

text \<open>Lines 103 to 120: with an integer \<open>n\<close> in hand.\<close>

definition set_uid :: "env \<Rightarrow> int \<Rightarrow> state \<Rightarrow> (outcome \<times> state) + (pyval \<times> state)" where
  "set_uid e n st =
     (if proc_uid st \<noteq> n then
        (case os_setuid n st of
           Inl (err, st1) \<Rightarrow>
             Inl (Exit 1, emit [Log Critical (Unable_UID n (getpwuid e n)), Log_shutdown] st1)
         | Inr st1 \<Rightarrow> Inr (PInt n, emit [Log Info (Assuming_UID n (getpwuid e n))] st1))
      else Inr (PInt n, st))"

text \<open>Lines 90 to 120: the uid step. It returns the value of the variable \<^verbatim>\<open>uid\<close>
  after the step.\<close>

definition uid_step :: "env \<Rightarrow> pyval \<Rightarrow> state \<Rightarrow> (outcome \<times> state) + (pyval \<times> state)" where
  "uid_step e uid st =
     (case uid of
        PNone \<Rightarrow> Inr (PNone, st)
      | PInt n \<Rightarrow> set_uid e n st
      | PStr name \<Rightarrow>
          (case getpwnam e name of
             None \<Rightarrow> Inl (Exit 1, emit [Log Critical (No_such_user name), Log_shutdown] st)
           | Some n \<Rightarrow> set_uid e n st))"

text \<open>Lines 122 to 133: the anti-root protection.\<close>

definition anti_root :: "pyval \<Rightarrow> state \<Rightarrow> (outcome \<times> state) + state" where
  "anti_root uid st =
     (if proc_uid st = 0 then
        (if uid = PInt 0 then Inr (emit [Log Warning Running_as_root] st)
         else Inl (Exit 1,
                emit [Log Critical Do_not_run_as_root, Log Critical Set_a_UID, Log_shutdown] st))
      else Inr st)"

text \<open>Lines 135 to 165: the gid step.\<close>

definition set_gid :: "env \<Rightarrow> int \<Rightarrow> state \<Rightarrow> (outcome \<times> state) + (pyval \<times> state)" where
  "set_gid e n st =
     (if proc_gid st \<noteq> n then
        (case os_setgid n st of
           Inl (err, st1) \<Rightarrow>
             Inl (Exit 1, emit [Log Critical (Unable_GID n (getgrgid e n)), Log_shutdown] st1)
         | Inr st1 \<Rightarrow> Inr (PInt n, emit [Log Info (Assuming_GID n (getgrgid e n))] st1))
      else Inr (PInt n, st))"

definition gid_step :: "env \<Rightarrow> pyval \<Rightarrow> state \<Rightarrow> (outcome \<times> state) + (pyval \<times> state)" where
  "gid_step e gid st =
     (case gid of
        PNone \<Rightarrow> Inr (PNone, st)
      | PInt n \<Rightarrow> set_gid e n st
      | PStr name \<Rightarrow>
          (case getgrnam e name of
             None \<Rightarrow> Inl (Exit 1, emit [Log Critical (No_such_group name), Log_shutdown] st)
           | Some n \<Rightarrow> set_gid e n st))"

text \<open>Lines 167 to 170: the umask step.\<close>

definition umask_step :: "pyval \<Rightarrow> state \<Rightarrow> state" where
  "umask_step umask st =
     (case umask of
        PInt m \<Rightarrow> (case os_umask m st of (old, st1) \<Rightarrow> emit [Log Info (Assuming_umask m old)] st1)
      | _ \<Rightarrow> st)"

definition assume_uid :: "env \<Rightarrow> pyval \<Rightarrow> pyval \<Rightarrow> pyval \<Rightarrow> state \<Rightarrow> (outcome \<times> state) + state" where
  "assume_uid e uid gid umask st =
     (let uid1 = value_or_setting e ''uid'' uid;
          gid1 = value_or_setting e ''gid'' gid;
          (umask1, st1) = umask_value e umask st
      in case uid_step e uid1 st1 of
           Inl h \<Rightarrow> Inl h
         | Inr (uid2, st2) \<Rightarrow>
             (case anti_root uid2 st2 of
                Inl h \<Rightarrow> Inl h
              | Inr st3 \<Rightarrow>
                  (case gid_step e gid1 st3 of
                     Inl h \<Rightarrow> Inl h
                   | Inr (gid2, st4) \<Rightarrow> Inr (umask_step umask1 st4))))"

section \<open>The module loader\<close>

text \<open>Lines 327 to 329: the entries the scan skips.\<close>

definition skipped :: "env \<Rightarrow> string \<Rightarrow> string \<Rightarrow> bool" where
  "skipped e fn full =
     (startswith fn ''.'' \<or>
      (path_isfile e full \<and> \<not> endswith fn ''.py'') \<or>
      (path_isdir e full \<and> \<not> path_exists e (os_path_join full ''__init__.py'')))"

text \<open>Lines 333 and 334: \<^verbatim>\<open>if fn.endswith(".py"): fn = fn[:-3]\<close>.\<close>

definition import_name :: "string \<Rightarrow> string" where
  "import_name fn = (if endswith fn ''.py'' then take (length fn - 3) fn else fn)"

text \<open>Lines 322 to 345: the loop over the sorted listing. \<open>Import fn\<close> is the call
  \<^verbatim>\<open>__import__(fn)\<close>; when it raises, the loop logs the exception and exits.\<close>

fun load_entries :: "env \<Rightarrow> string \<Rightarrow> string list \<Rightarrow> state \<Rightarrow> (outcome \<times> state) + state" where
  "load_entries e path [] st = Inr st"
| "load_entries e path (fn # fns) st =
     (let full = os_path_join path fn in
      if skipped e fn full then load_entries e path fns st
      else
        (let fn1 = import_name fn;
             st1 = emit [Log Debug (Importing_module fn1), Import fn1] st
         in if import_raises e fn1
            then Inl (Exit 1, emit [Log Exception (Import_error fn1 full), Log_shutdown] st1)
            else load_entries e path fns
                   (st1\<lparr>pymodules := (pymodules st1)(fn1 \<mapsto> Module fn1)\<rparr>)))"

text \<open>Lines 303 to 345. The working directory is the library root \<open>lib\<close> at this
  point (lines 267 to 269), so the relative name \<^verbatim>\<open>pymodules\<close> is the path
  \<open>os_path_join lib ''pymodules''\<close>, which is also \<^verbatim>\<open>os.path.abspath("pymodules")\<close>.\<close>

definition load_library :: "env \<Rightarrow> string \<Rightarrow> state \<Rightarrow> (outcome \<times> state) + state" where
  "load_library e lib st =
     (let st1 = emit [Log Info Loading_library] st;
          path = os_path_join lib ''pymodules''
      in if \<not> path_exists e path
         then Inl (Exit 1, emit [Log Error Cannot_find_pymodules, Log_shutdown] st1)
         else if path_exists e (os_path_join path ''__init__.py'')
         then Inr (emit [Log Debug (Importing_module ''pymodules''), Import ''pymodules''] st1)
         else load_entries e path (sort (listdir e path))
                (emit [Log Debug Pymodules_not_package, Sys_path_insert path] st1))"

section \<open>The supervisor \<^verbatim>\<open>main\<close>\<close>

definition of_arg :: "string option \<Rightarrow> pyval" where
  "of_arg v = (case v of None \<Rightarrow> PNone | Some s \<Rightarrow> PStr s)"

text \<open>Lines 254 to 269: logging, and entering the MUD library. Returns the library root.\<close>

definition enter_library :: "env \<Rightarrow> args \<Rightarrow> state \<Rightarrow> (outcome \<times> state) + (string \<times> state)" where
  "enter_library e a st =
     (let st1 = emit [Log_initialize (args_color a) (args_level a)
                        (os_path_join (args_lib a) (args_log a)),
                      Log Naked Banner] st;
          path = realpath e (args_lib a)
      in if \<not> path_exists e path \<or>
            \<not> (path_exists e (os_path_join path ''muddata'') \<or>
               path_exists e (os_path_join path ''config''))
         then Inl (Exit 1, emit [Log Error (Cannot_find_library path), Log_shutdown] st1)
         else Inr (path,
                if path \<noteq> getcwd e
                then emit [Log Info (Changing_directory path), Os_chdir path] st1
                else st1))"

text \<open>Lines 273 to 281.\<close>

definition configure :: "args \<Rightarrow> state \<Rightarrow> state" where
  "configure a st =
     emit [Log Info Loading_configuration, Settings_initialize,
           Log Info Initializing_network,
           Network_initialize (args_addr a) (args_http_addr a)] st"

text \<open>Lines 285 and 286, and 358 and 359. \<open>Call_assume_uid\<close> marks the call.\<close>

definition early_identity :: "env \<Rightarrow> args \<Rightarrow> state \<Rightarrow> (outcome \<times> state) + state" where
  "early_identity e a st =
     (if do_uid e \<and> args_early a
      then assume_uid e (of_arg (args_uid a)) (of_arg (args_gid a)) (of_arg (args_umask a))
             (emit [Call_assume_uid] st)
      else Inr st)"

definition late_identity :: "env \<Rightarrow> args \<Rightarrow> state \<Rightarrow> (outcome \<times> state) + state" where
  "late_identity e a st =
     (if do_uid e \<and> \<not> args_early a
      then assume_uid e (of_arg (args_uid a)) (of_arg (args_gid a)) (of_arg (args_umask a))
             (emit [Call_assume_uid] st)
      else Inr st)"

text \<open>Lines 172 to 177 and 290 to 299.\<close>

definition inject :: "string \<Rightarrow> event list" where
  "inject name = [Log Debug (Injecting name), Sys_modules_set name]"

definition compatibility :: "env \<Rightarrow> state \<Rightarrow> state" where
  "compatibility e st =
     (let st1 = (if truthy (settings_get e ''nakedmud_compatible'')
                 then emit [Log Info Loading_compatibility_layer, Import_nmcompat] st
                 else st)
      in emit (Log Info Injecting_global_modules #
               concat (map inject
                 [''account'', ''auxiliary'', ''bitvectors'', ''char'', ''event'', ''hooks'',
                  ''mudsock'', ''mud'', ''mudsys'', ''obj'', ''room'', ''storage''])) st1)"

text \<open>Lines 349 to 354.\<close>

definition register_signals :: "env \<Rightarrow> state \<Rightarrow> state" where
  "register_signals e st =
     (let st1 = emit [Log Todo Copyover_recovery] st in
      if has_SIGHUP e then (emit [Signal_signal] st1)\<lparr>hup_handler := True\<rparr> else st1)"

text \<open>Lines 366 to 375: the event loop and its three \<^verbatim>\<open>except\<close> clauses. Returns
  \<^verbatim>\<open>begin_copyover\<close>. \<open>Engine_start\<close> is the call \<^verbatim>\<open>pants.engine.start()\<close>, which
  blocks: every later event of the trace happens after the engine has given control back.\<close>

definition run_loop :: "env \<Rightarrow> state \<Rightarrow> (outcome \<times> state) + (bool \<times> state)" where
  "run_loop e st =
     (let st1 = emit [Engine_start] st in
      case engine_start e of
        None \<Rightarrow> Inr (False, st1)
      | Some SystemCopyover \<Rightarrow> Inr (True, st1)
      | Some SystemExit \<Rightarrow> Inr (False, st1)
      | Some KeyboardInterrupt \<Rightarrow> Inr (False, emit [Print []] st1)
      | Some OtherException \<Rightarrow> Inl (Uncaught OtherException, st1))"

text \<open>Lines 377 to 388.\<close>

definition cleanup :: "bool \<Rightarrow> state \<Rightarrow> outcome \<times> state" where
  "cleanup begin_copyover st =
     (let st1 = emit [Log_line] st;
          st2 = (if begin_copyover then emit [Log Todo Copyover] st1 else st1)
      in (Exit 0, emit [Hooks_run ''shutdown'', Log Info Exiting_normally, Log_shutdown] st2))"

text \<open>Lines 252 to 359, after \<^verbatim>\<open>parser.parse_args()\<close> has returned \<open>a\<close>: every phase
  before the event loop.\<close>

definition startup :: "env \<Rightarrow> args \<Rightarrow> state \<Rightarrow> (outcome \<times> state) + state" where
  "startup e a st =
     (case enter_library e a st of
        Inl h \<Rightarrow> Inl h
      | Inr (path, st1) \<Rightarrow>
          (case early_identity e a (configure a st1) of
             Inl h \<Rightarrow> Inl h
           | Inr st2 \<Rightarrow>
               (case load_library e path (compatibility e st2) of
                  Inl h \<Rightarrow> Inl h
                | Inr st3 \<Rightarrow> late_identity e a (register_signals e st3))))"

text \<open>Lines 252 to 388.\<close>

definition main :: "env \<Rightarrow> args \<Rightarrow> state \<Rightarrow> outcome \<times> state" where
  "main e a st =
     (case startup e a st of
        Inl h \<Rightarrow> h
      | Inr st4 \<Rightarrow>
          (case run_loop e (emit [Log Info Entering_game_loop, Log_line] st4) of
             Inl h \<Rightarrow> h
           | Inr (begin_copyover, st5) \<Rightarrow> cleanup begin_copyover st5))"

text \<open>How the run loop ended, in the vocabulary of the specification: the three cases
  the supervisor handles, read off the \<^verbatim>\<open>except\<close> clauses of lines 368 to 375.\<close>

datatype control_event = Normal | CopyoverRequested | Interrupted

definition control_event :: "exn option \<Rightarrow> control_event option" where
  "control_event r =
     (case r of
        None \<Rightarrow> Some Normal
      | Some SystemExit \<Rightarrow> Some Normal
      | Some SystemCopyover \<Rightarrow> Some CopyoverRequested
      | Some KeyboardInterrupt \<Rightarrow> Some Interrupted
      | Some OtherException \<Rightarrow> None)"

section \<open>Reading a run\<close>

text \<open>The state a phase ends in, whether it returns or exits.\<close>

definition final :: "(outcome \<times> state) + state \<Rightarrow> state" where
  "final r = (case r of Inl (out, st) \<Rightarrow> st | Inr st \<Rightarrow> st)"

text \<open>The events a phase added to the trace of the state \<open>st\<close> it started in.\<close>

definition events_since :: "state \<Rightarrow> state \<Rightarrow> event list" where
  "events_since st st' = drop (length (trace st)) (trace st')"

text \<open>The calls \<^verbatim>\<open>__import__(fn)\<close> among some events, in order.\<close>

fun imports_of :: "event list \<Rightarrow> string list" where
  "imports_of [] = []"
| "imports_of (Import fn # es) = fn # imports_of es"
| "imports_of (ev # es) = imports_of es"

text \<open>The number of calls of \<^verbatim>\<open>assume_uid\<close> and of \<^verbatim>\<open>nakedsun.hooks.run\<close> among some
  events.\<close>

definition identity_calls :: "event list \<Rightarrow> nat" where
  "identity_calls es = length (filter (\<lambda>ev. ev = Call_assume_uid) es)"

definition is_hooks_run :: "event \<Rightarrow> bool" where
  "is_hooks_run ev = (case ev of Hooks_run name \<Rightarrow> True | _ \<Rightarrow> False)"

definition hook_runs :: "event list \<Rightarrow> nat" where
  "hook_runs es = length (filter is_hooks_run es)"

text \<open>\<open>extends P st st'\<close>: the trace of \<open>st'\<close> is the trace of \<open>st\<close> followed by events
  that all satisfy \<open>P\<close>.\<close>

definition extends :: "(event \<Rightarrow> bool) \<Rightarrow> state \<Rightarrow> state \<Rightarrow> bool" where
  "extends P st st' =
     (take (length (trace st)) (trace st') = trace st \<and> list_all P (events_since st st'))"

text \<open>The events each step of \<^verbatim>\<open>assume_uid\<close> can add to the trace.\<close>

inductive uid_event :: "event \<Rightarrow> bool" where
  "uid_event (Os_setuid n)"
| "uid_event (Log Info (Assuming_UID n name))"
| "uid_event (Log Critical (Unable_UID n name))"
| "uid_event (Log Critical (No_such_user s))"
| "uid_event Log_shutdown"

inductive guard_event :: "event \<Rightarrow> bool" where
  "guard_event (Log Warning Running_as_root)"
| "guard_event (Log Critical Do_not_run_as_root)"
| "guard_event (Log Critical Set_a_UID)"
| "guard_event Log_shutdown"

inductive gid_event :: "event \<Rightarrow> bool" where
  "gid_event (Os_setgid n)"
| "gid_event (Log Info (Assuming_GID n name))"
| "gid_event (Log Critical (Unable_GID n name))"
| "gid_event (Log Critical (No_such_group s))"
| "gid_event Log_shutdown"

inductive umask_event :: "event \<Rightarrow> bool" where
  "umask_event (Os_umask m)"
| "umask_event (Log Info (Assuming_umask m old))"

inductive warning_event :: "event \<Rightarrow> bool" where
  "warning_event (Log Warning (Invalid_umask v))"

text \<open>The uid step, the anti-root guard and the gid step in a row, as \<^verbatim>\<open>assume_uid\<close>
  runs them (lines 90 to 165), and the events they can add.\<close>

definition id_steps :: "env \<Rightarrow> pyval \<Rightarrow> pyval \<Rightarrow> state \<Rightarrow> (outcome \<times> state) + state" where
  "id_steps e uid1 gid1 st1 =
     (case uid_step e uid1 st1 of
        Inl h \<Rightarrow> Inl h
      | Inr (uid2, st2) \<Rightarrow>
          (case anti_root uid2 st2 of
             Inl h \<Rightarrow> Inl h
           | Inr st3 \<Rightarrow>
               (case gid_step e gid1 st3 of
                  Inl h \<Rightarrow> Inl h
                | Inr (gid2, st4) \<Rightarrow> Inr st4)))"

definition id_event :: "event \<Rightarrow> bool" where
  "id_event ev = (uid_event ev \<or> guard_event ev \<or> gid_event ev)"

text \<open>The entries the scan does not skip, in the order given, each as the module name
  and the full path the loop computes for it (lines 323 to 334).\<close>

definition discovered :: "env \<Rightarrow> string \<Rightarrow> string list \<Rightarrow> (string \<times> string) list" where
  "discovered e path fns =
     map (\<lambda>fn. (import_name fn, os_path_join path fn))
       (filter (\<lambda>fn. \<not> skipped e fn (os_path_join path fn)) fns)"

text \<open>The loop of lines 336 to 345 over such a list.\<close>

fun load_plan :: "env \<Rightarrow> (string \<times> string) list \<Rightarrow> state \<Rightarrow> (outcome \<times> state) + state" where
  "load_plan e [] st = Inr st"
| "load_plan e ((fn1, full) # plan) st =
     (let st1 = emit [Log Debug (Importing_module fn1), Import fn1] st
      in if import_raises e fn1
         then Inl (Exit 1, emit [Log Exception (Import_error fn1 full), Log_shutdown] st1)
         else load_plan e plan (st1\<lparr>pymodules := (pymodules st1)(fn1 \<mapsto> Module fn1)\<rparr>))"

text \<open>The events of importing every entry of a list with success, and the registry
  \<^verbatim>\<open>nakedsun.mudsys.pymodules\<close> after it.\<close>

definition import_events :: "(string \<times> string) list \<Rightarrow> event list" where
  "import_events plan =
     concat (map (\<lambda>(fn, full). [Log Debug (Importing_module fn), Import fn]) plan)"

definition registered :: "(string \<times> string) list \<Rightarrow> (string \<rightharpoonup> pymodule) \<Rightarrow> (string \<rightharpoonup> pymodule)" where
  "registered plan m = fold (\<lambda>(fn, full) m. m(fn \<mapsto> Module fn)) plan m"


definition is_import_error :: "event \<Rightarrow> bool" where
  "is_import_error ev = (case ev of Log Exception (Import_error fn full) \<Rightarrow> True | _ \<Rightarrow> False)"

definition import_failures :: "event list \<Rightarrow> nat" where
  "import_failures es = length (filter is_import_error es)"



text \<open>The events of the phases before the event loop, the calls of \<^verbatim>\<open>assume_uid\<close>
  apart; \<open>run_part c st st'\<close>: from \<open>st\<close> to \<open>st'\<close> the run added such events and \<open>c\<close>
  calls of \<^verbatim>\<open>assume_uid\<close>; \<open>same_ids\<close>: the process's user and group are unchanged.\<close>

definition startup_event :: "event \<Rightarrow> bool" where
  "startup_event ev =
     (case ev of
        Call_assume_uid \<Rightarrow> False
      | Engine_start \<Rightarrow> False
      | Hooks_run name \<Rightarrow> False
      | Print s \<Rightarrow> False
      | _ \<Rightarrow> True)"

definition run_part :: "nat \<Rightarrow> state \<Rightarrow> state \<Rightarrow> bool" where
  "run_part c st st' =
     (extends (\<lambda>ev. startup_event ev \<or> ev = Call_assume_uid) st st' \<and>
      identity_calls (events_since st st') = c)"

definition same_ids :: "state \<Rightarrow> state \<Rightarrow> bool" where
  "same_ids st st' = (proc_uid st' = proc_uid st \<and> proc_gid st' = proc_gid st)"

text \<open>The run gets through every phase before the event loop.\<close>

definition reaches_loop :: "env \<Rightarrow> args \<Rightarrow> state \<Rightarrow> bool" where
  "reaches_loop e a st = (case startup e a st of Inl h \<Rightarrow> False | Inr st1 \<Rightarrow> True)"

section \<open>An example installation\<close>

text \<open>A concrete environment for the examples. Its \<open>int_of_str\<close> reads a decimal
  literal with an optional sign, as \<^verbatim>\<open>int\<close> does; any other string is rejected
  (\<^verbatim>\<open>ValueError\<close>), the empty string among them.\<close>

definition digit_val :: "char \<Rightarrow> nat option" where
  "digit_val c =
     (if CHR ''0'' \<le> c \<and> c \<le> CHR ''9'' then Some (of_char c - 48) else None)"

fun digits_val :: "nat \<Rightarrow> string \<Rightarrow> nat option" where
  "digits_val acc [] = Some acc"
| "digits_val acc (c # cs) =
     (case digit_val c of None \<Rightarrow> None | Some d \<Rightarrow> digits_val (10 * acc + d) cs)"

definition decimal :: "string \<Rightarrow> int option" where
  "decimal s =
     (case s of
        [] \<Rightarrow> None
      | c # cs \<Rightarrow>
          if c = CHR ''-'' then (if cs = [] then None else map_option (\<lambda>n. - int n) (digits_val 0 cs))
          else if c = CHR ''+'' then (if cs = [] then None else map_option int (digits_val 0 cs))
          else map_option int (digits_val 0 s))"

text \<open>The library \<^verbatim>\<open>/srv/mud/lib\<close> with the plugin directory of the specification's
  example: \<^verbatim>\<open>b.py\<close>, \<^verbatim>\<open>a.py\<close>, \<^verbatim>\<open>.hidden.py\<close>, a directory \<^verbatim>\<open>pkgdir\<close> without
  \<^verbatim>\<open>__init__.py\<close> and a directory \<^verbatim>\<open>pkg2\<close> with it.\<close>

definition example_env :: env where
  "example_env =
     \<lparr> do_uid = True,
       has_SIGHUP = True,
       int_of_str = decimal,
       getpwnam = map_of [(''root'', 0), (''mud'', 1000)],
       getpwuid = map_of [(0, ''root''), (1000, ''mud'')],
       getgrnam = map_of [(''root'', 0), (''mud'', 1000)],
       getgrgid = map_of [(0, ''root''), (1000, ''mud'')],
       settings_get = (\<lambda>key. PNone),
       getcwd = ''/srv/mud'',
       realpath = (\<lambda>p. if p = ''lib'' then ''/srv/mud/lib'' else p),
       path_exists = (\<lambda>p. p \<in> set [''/srv/mud/lib'', ''/srv/mud/lib/muddata'',
          ''/srv/mud/lib/pymodules'', ''/srv/mud/lib/pymodules/a.py'',
          ''/srv/mud/lib/pymodules/b.py'', ''/srv/mud/lib/pymodules/.hidden.py'',
          ''/srv/mud/lib/pymodules/pkgdir'', ''/srv/mud/lib/pymodules/pkg2'',
          ''/srv/mud/lib/pymodules/pkg2/__init__.py'']),
       path_isfile = (\<lambda>p. p \<in> set [''/srv/mud/lib/pymodules/a.py'',
          ''/srv/mud/lib/pymodules/b.py'', ''/srv/mud/lib/pymodules/.hidden.py'',
          ''/srv/mud/lib/pymodules/pkg2/__init__.py'']),
       path_isdir = (\<lambda>p. p \<in> set [''/srv/mud/lib'', ''/srv/mud/lib/muddata'',
          ''/srv/mud/lib/pymodules'', ''/srv/mud/lib/pymodules/pkgdir'',
          ''/srv/mud/lib/pymodules/pkg2'']),
       listdir = (\<lambda>p. if p = ''/srv/mud/lib/pymodules''
                       then [''b.py'', ''a.py'', ''.hidden.py'', ''pkgdir'', ''pkg2''] else []),
       import_raises = (\<lambda>fn. False),
       engine_start = None \<rparr>"

definition example_args :: args where
  "example_args =
     \<lparr> args_lib = ''lib'', args_addr = None, args_http_addr = None, args_log = ''../log'',
       args_level = ''INFO'', args_color = True, args_uid = Some ''mud'', args_gid = None,
       args_umask = None, args_early = False \<rparr>"

text \<open>The process at its start, run by the user with the given id.\<close>

definition started_as :: "int \<Rightarrow> state" where
  "started_as n =
     \<lparr> proc_uid = n, proc_gid = n, proc_umask = 18, pymodules = Map.empty,
       hup_handler = False, trace = [] \<rparr>"


text \<open>The same installation with a package directory named \<^verbatim>\<open>foo.py\<close> beside \<^verbatim>\<open>a.py\<close>.\<close>

definition package_env :: env where
  "package_env = example_env
     \<lparr> path_exists := (\<lambda>p. p \<in> set [''/srv/mud/lib'', ''/srv/mud/lib/muddata'',
          ''/srv/mud/lib/pymodules'', ''/srv/mud/lib/pymodules/a.py'',
          ''/srv/mud/lib/pymodules/foo.py'', ''/srv/mud/lib/pymodules/foo.py/__init__.py'']),
       path_isfile := (\<lambda>p. p \<in> set [''/srv/mud/lib/pymodules/a.py'',
          ''/srv/mud/lib/pymodules/foo.py/__init__.py'']),
       path_isdir := (\<lambda>p. p \<in> set [''/srv/mud/lib'', ''/srv/mud/lib/muddata'',
          ''/srv/mud/lib/pymodules'', ''/srv/mud/lib/pymodules/foo.py'']),
       listdir := (\<lambda>p. if p = ''/srv/mud/lib/pymodules'' then [''foo.py'', ''a.py''] else []) \<rparr>"

text \<open>The example installation with an event loop ended by a copyover request, or by
  an interrupt; and on a platform without \<^verbatim>\<open>os.getuid\<close> and \<^verbatim>\<open>SIGHUP\<close>.\<close>

definition copyover_env :: env where
  "copyover_env = example_env\<lparr>engine_start := Some SystemCopyover\<rparr>"

definition interrupted_env :: env where
  "interrupted_env = example_env\<lparr>engine_start := Some KeyboardInterrupt\<rparr>"

definition nouid_env :: env where
  "nouid_env = example_env\<lparr>do_uid := False, has_SIGHUP := False\<rparr>"


section \<open>Basic facts about the trace\<close>

lemmas step_defs = uid_step_def set_uid_def gid_step_def set_gid_def anti_root_def umask_step_def
  os_setuid_def os_setgid_def os_umask_def emit_def

lemma trace_emit [simp]: "trace (emit es st) = trace st @ es"
  by (simp add: emit_def)

lemma events_since_emit: "trace st' = trace st @ es \<Longrightarrow> events_since st st' = es"
  by (simp add: events_since_def)

lemma emit_fields [simp]:
  "proc_uid (emit es st) = proc_uid st"
  "proc_gid (emit es st) = proc_gid st"
  "proc_umask (emit es st) = proc_umask st"
  "pymodules (emit es st) = pymodules st"
  "hup_handler (emit es st) = hup_handler st"
  by (simp_all add: emit_def)

lemma final_simps [simp]: "final (Inl (out, st)) = st" "final (Inr st) = st"
  by (simp_all add: final_def)

lemma extendsI: "trace st' = trace st @ es \<Longrightarrow> list_all P es \<Longrightarrow> extends P st st'"
  by (simp add: extends_def events_since_def)

lemma extendsD:
  "extends P st st' \<Longrightarrow> trace st' = trace st @ events_since st st' \<and> list_all P (events_since st st')"
  unfolding extends_def events_since_def
  by (metis append_take_drop_id)

lemma extends_refl [simp]: "extends P st st"
  by (rule extendsI [where es = "[]"]) simp_all

lemma extends_emit: "list_all P es \<Longrightarrow> extends P st (emit es st)"
  by (rule extendsI [where es = es]) simp_all

lemma extends_trans:
  assumes "extends P st st'" and "extends P st' st''"
  shows "extends P st st''"
proof -
  from assms(1) have a: "trace st' = trace st @ events_since st st'" "list_all P (events_since st st')"
    by (simp_all add: extendsD)
  from assms(2) have b: "trace st'' = trace st' @ events_since st' st''" "list_all P (events_since st' st'')"
    by (simp_all add: extendsD)
  show ?thesis
  proof (rule extendsI [where es = "events_since st st' @ events_since st' st''"])
    show "trace st'' = trace st @ events_since st st' @ events_since st' st''"
      using a(1) b(1) by simp
    show "list_all P (events_since st st' @ events_since st' st'')"
      using a(2) b(2) by simp
  qed
qed

lemma extends_mono:
  assumes "extends P st st'" and "\<And>ev. P ev \<Longrightarrow> Q ev"
  shows "extends Q st st'"
proof -
  from assms(1) have a: "trace st' = trace st @ events_since st st'" "list_all P (events_since st st')"
    by (simp_all add: extendsD)
  from a(2) assms(2) have "list_all Q (events_since st st')"
    by (auto simp: list_all_iff)
  with a(1) show ?thesis
    by (rule extendsI)
qed

lemma extends_set: "extends P st st' \<Longrightarrow> ev \<in> set (events_since st st') \<Longrightarrow> P ev"
  by (auto dest: extendsD simp: list_all_iff)

lemma events_since_append:
  assumes "extends P st st'" and "extends Q st' st''"
  shows "events_since st st'' = events_since st st' @ events_since st' st''"
proof -
  from assms(1) have a: "trace st' = trace st @ events_since st st'"
    by (simp add: extendsD)
  from assms(2) have b: "trace st'' = trace st' @ events_since st' st''"
    by (simp add: extendsD)
  have "trace st'' = trace st @ (events_since st st' @ events_since st' st'')"
    using a b by simp
  then show ?thesis
    by (rule events_since_emit)
qed

section \<open>The steps of the identity transition extend the trace\<close>

lemma umask_value_frame:
  "proc_uid (snd (umask_value e umask st)) = proc_uid st \<and>
   proc_gid (snd (umask_value e umask st)) = proc_gid st \<and>
   proc_umask (snd (umask_value e umask st)) = proc_umask st \<and>
   pymodules (snd (umask_value e umask st)) = pymodules st \<and>
   hup_handler (snd (umask_value e umask st)) = hup_handler st"
  by (simp add: umask_value_def Let_def split: option.splits)

lemma umask_value_extends: "extends warning_event st (snd (umask_value e umask st))"
  by (auto simp: umask_value_def Let_def split: option.splits
           intro!: extends_emit warning_event.intros)

lemma set_uid_Inl:
  assumes "set_uid e n st = Inl (out, st')"
  shows "out = Exit 1 \<and> extends uid_event st st' \<and> proc_uid st' = proc_uid st \<and>
         proc_gid st' = proc_gid st \<and> proc_umask st' = proc_umask st \<and>
         pymodules st' = pymodules st \<and> hup_handler st' = hup_handler st"
  using assms
  by (auto simp: set_uid_def os_setuid_def Let_def split: if_splits
           intro!: extendsI [where es = "[Os_setuid n, Log Critical (Unable_UID n (getpwuid e n)), Log_shutdown]"]
                   uid_event.intros)

lemma set_uid_Inr:
  assumes "set_uid e n st = Inr (u, st')"
  shows "u = PInt n \<and> proc_uid st' = n \<and> extends uid_event st st' \<and>
         proc_gid st' = proc_gid st \<and> proc_umask st' = proc_umask st \<and>
         pymodules st' = pymodules st \<and> hup_handler st' = hup_handler st"
  using assms
  by (auto simp: set_uid_def os_setuid_def Let_def split: if_splits
           intro!: extendsI [where es = "[Os_setuid n, Log Info (Assuming_UID n (getpwuid e n))]"]
                   uid_event.intros)

lemma uid_step_Inl:
  assumes "uid_step e uid st = Inl (out, st')"
  shows "out = Exit 1 \<and> extends uid_event st st' \<and> proc_uid st' = proc_uid st \<and>
         proc_gid st' = proc_gid st \<and> proc_umask st' = proc_umask st \<and>
         pymodules st' = pymodules st \<and> hup_handler st' = hup_handler st"
  using assms
  by (auto simp: uid_step_def split: pyval.splits option.splits
           dest: set_uid_Inl intro!: extends_emit uid_event.intros)

lemma uid_step_Inr:
  assumes "uid_step e uid st = Inr (u, st')"
  shows "(u = PNone \<or> u = PInt (proc_uid st')) \<and> extends uid_event st st' \<and>
         proc_gid st' = proc_gid st \<and> proc_umask st' = proc_umask st \<and>
         pymodules st' = pymodules st \<and> hup_handler st' = hup_handler st"
  using assms
  by (auto simp: uid_step_def split: pyval.splits option.splits dest: set_uid_Inr)

lemma anti_root_Inl:
  assumes "anti_root uid st = Inl (out, st')"
  shows "out = Exit 1 \<and> extends guard_event st st' \<and> proc_uid st' = proc_uid st \<and>
         proc_gid st' = proc_gid st \<and> proc_umask st' = proc_umask st \<and>
         pymodules st' = pymodules st \<and> hup_handler st' = hup_handler st"
  using assms
  by (auto simp: anti_root_def split: if_splits intro!: extends_emit guard_event.intros)

lemma anti_root_Inr:
  assumes "anti_root uid st = Inr st'"
  shows "extends guard_event st st' \<and> proc_uid st' = proc_uid st \<and>
         proc_gid st' = proc_gid st \<and> proc_umask st' = proc_umask st \<and>
         pymodules st' = pymodules st \<and> hup_handler st' = hup_handler st"
  using assms
  by (auto simp: anti_root_def split: if_splits intro!: extends_emit guard_event.intros)

lemma set_gid_Inl:
  assumes "set_gid e n st = Inl (out, st')"
  shows "out = Exit 1 \<and> extends gid_event st st' \<and> proc_uid st' = proc_uid st \<and>
         proc_gid st' = proc_gid st \<and> proc_umask st' = proc_umask st \<and>
         pymodules st' = pymodules st \<and> hup_handler st' = hup_handler st"
  using assms
  by (auto simp: set_gid_def os_setgid_def Let_def split: if_splits
           intro!: extendsI [where es = "[Os_setgid n, Log Critical (Unable_GID n (getgrgid e n)), Log_shutdown]"]
                   gid_event.intros)

lemma set_gid_Inr:
  assumes "set_gid e n st = Inr (g, st')"
  shows "extends gid_event st st' \<and> proc_uid st' = proc_uid st \<and>
         proc_umask st' = proc_umask st \<and>
         pymodules st' = pymodules st \<and> hup_handler st' = hup_handler st"
  using assms
  by (auto simp: set_gid_def os_setgid_def Let_def split: if_splits
           intro!: extendsI [where es = "[Os_setgid n, Log Info (Assuming_GID n (getgrgid e n))]"]
                   gid_event.intros)

lemma gid_step_Inl:
  assumes "gid_step e gid st = Inl (out, st')"
  shows "out = Exit 1 \<and> extends gid_event st st' \<and> proc_uid st' = proc_uid st \<and>
         proc_gid st' = proc_gid st \<and> proc_umask st' = proc_umask st \<and>
         pymodules st' = pymodules st \<and> hup_handler st' = hup_handler st"
  using assms
  by (auto simp: gid_step_def split: pyval.splits option.splits
           dest: set_gid_Inl intro!: extends_emit gid_event.intros)

lemma gid_step_Inr:
  assumes "gid_step e gid st = Inr (g, st')"
  shows "extends gid_event st st' \<and> proc_uid st' = proc_uid st \<and>
         proc_umask st' = proc_umask st \<and>
         pymodules st' = pymodules st \<and> hup_handler st' = hup_handler st"
  using assms
  by (auto simp: gid_step_def split: pyval.splits option.splits dest: set_gid_Inr)

lemma umask_step_frame:
  "extends umask_event st (umask_step umask st) \<and>
   proc_uid (umask_step umask st) = proc_uid st \<and>
   proc_gid (umask_step umask st) = proc_gid st \<and>
   pymodules (umask_step umask st) = pymodules st \<and>
   hup_handler (umask_step umask st) = hup_handler st"
proof (cases umask)
  case (PInt m)
  have "extends umask_event st (umask_step (PInt m) st)"
    by (rule extendsI [where es = "[Os_umask m, Log Info (Assuming_umask m (proc_umask st))]"])
       (simp_all add: umask_step_def os_umask_def emit_def umask_event.intros)
  then show ?thesis
    using PInt by (simp add: umask_step_def os_umask_def)
qed (simp_all add: umask_step_def)


lemma assume_uid_id_steps:
  "assume_uid e uid gid umask st =
     (case id_steps e (value_or_setting e ''uid'' uid) (value_or_setting e ''gid'' gid)
              (snd (umask_value e umask st)) of
        Inl h \<Rightarrow> Inl h
      | Inr st4 \<Rightarrow> Inr (umask_step (fst (umask_value e umask st)) st4))"
  by (simp add: assume_uid_def id_steps_def split_beta split: sum.splits)

lemma id_steps_final:
  "extends id_event st (final (id_steps e u g st)) \<and>
   proc_umask (final (id_steps e u g st)) = proc_umask st \<and>
   pymodules (final (id_steps e u g st)) = pymodules st \<and>
   hup_handler (final (id_steps e u g st)) = hup_handler st"
proof (cases "uid_step e u st")
  case (Inl h)
  obtain out st' where h: "h = (out, st')" by (cases h)
  have "extends uid_event st st'" "proc_umask st' = proc_umask st"
       "pymodules st' = pymodules st" "hup_handler st' = hup_handler st"
    using uid_step_Inl [of e u st out st'] Inl h by simp_all
  moreover have "id_steps e u g st = Inl (out, st')"
    using Inl h by (simp add: id_steps_def)
  ultimately show ?thesis
    by (auto intro: extends_mono simp: id_event_def)
next
  case (Inr k)
  obtain uid2 st2 where k: "k = (uid2, st2)" by (cases k)
  have a2: "extends uid_event st st2" "proc_umask st2 = proc_umask st"
       "pymodules st2 = pymodules st" "hup_handler st2 = hup_handler st"
    using uid_step_Inr [of e u st uid2 st2] Inr k by simp_all
  have p2: "extends id_event st st2"
    by (rule extends_mono [OF a2(1)]) (simp add: id_event_def)
  show ?thesis
  proof (cases "anti_root uid2 st2")
    case (Inl h)
    obtain out st' where h: "h = (out, st')" by (cases h)
    have g: "extends guard_event st2 st'" "proc_umask st' = proc_umask st2"
       "pymodules st' = pymodules st2" "hup_handler st' = hup_handler st2"
      using anti_root_Inl [of uid2 st2 out st'] Inl h by simp_all
    have "extends id_event st2 st'"
      by (rule extends_mono [OF g(1)]) (simp add: id_event_def)
    moreover have "id_steps e u g st = Inl (out, st')"
      using Inr k Inl h by (simp add: id_steps_def)
    ultimately show ?thesis
      using p2 a2 g by (auto intro: extends_trans)
  next
    case Inr3: (Inr st3)
    have a3: "extends guard_event st2 st3" "proc_umask st3 = proc_umask st2"
       "pymodules st3 = pymodules st2" "hup_handler st3 = hup_handler st2"
      using anti_root_Inr [of uid2 st2 st3] Inr3 by simp_all
    have p3: "extends id_event st st3"
      by (rule extends_trans [OF p2]) (rule extends_mono [OF a3(1)], simp add: id_event_def)
    show ?thesis
    proof (cases "gid_step e g st3")
      case (Inl h)
      obtain out st' where h: "h = (out, st')" by (cases h)
      have b: "extends gid_event st3 st'" "proc_umask st' = proc_umask st3"
         "pymodules st' = pymodules st3" "hup_handler st' = hup_handler st3"
        using gid_step_Inl [of e g st3 out st'] Inl h by simp_all
      have "extends id_event st3 st'"
        by (rule extends_mono [OF b(1)]) (simp add: id_event_def)
      moreover have "id_steps e u g st = Inl (out, st')"
        using Inr k Inr3 Inl h by (simp add: id_steps_def)
      ultimately show ?thesis
        using p3 a2 a3 b by (auto intro: extends_trans)
    next
      case Inr4: (Inr k4)
      obtain gid2 st4 where k4: "k4 = (gid2, st4)" by (cases k4)
      have b: "extends gid_event st3 st4" "proc_umask st4 = proc_umask st3"
         "pymodules st4 = pymodules st3" "hup_handler st4 = hup_handler st3"
        using gid_step_Inr [of e g st3 gid2 st4] Inr4 k4 by simp_all
      have "extends id_event st3 st4"
        by (rule extends_mono [OF b(1)]) (simp add: id_event_def)
      moreover have "id_steps e u g st = Inr st4"
        using Inr k Inr3 Inr4 k4 by (simp add: id_steps_def)
      ultimately show ?thesis
        using p3 a2 a3 b by (auto intro: extends_trans)
    qed
  qed
qed

lemma id_steps_exit: "id_steps e u g st = Inl (out, st') \<Longrightarrow> out = Exit 1"
  by (auto simp: id_steps_def split: sum.splits prod.splits
           dest: uid_step_Inl anti_root_Inl gid_step_Inl)


section \<open>The module loader follows the discovered entries\<close>

lemma load_entries_plan: "load_entries e path fns st = load_plan e (discovered e path fns) st"
  by (induction fns arbitrary: st) (simp_all add: discovered_def Let_def)

lemma import_events_simps [simp]:
  "import_events [] = []"
  "import_events ((fn, full) # plan) = Log Debug (Importing_module fn) # Import fn # import_events plan"
  "import_events (xs @ ys) = import_events xs @ import_events ys"
  by (simp_all add: import_events_def)

lemma registered_simps [simp]:
  "registered [] m = m"
  "registered ((fn, full) # plan) m = registered plan (m(fn \<mapsto> Module fn))"
  by (simp_all add: registered_def)

lemma emit_Nil [simp]: "emit [] st = st"
  by (simp add: emit_def)

lemma emit_emit [simp]: "emit es (emit es' st) = emit (es' @ es) st"
  by (simp add: emit_def)

lemma emit_pymodules_update [simp]:
  "emit es (st\<lparr>pymodules := m\<rparr>) = (emit es st)\<lparr>pymodules := m\<rparr>"
  by (simp add: emit_def)

lemma load_plan_ok:
  "\<forall>(fn, full) \<in> set plan. \<not> import_raises e fn \<Longrightarrow>
   load_plan e plan st =
     Inr ((emit (import_events plan) st)\<lparr>pymodules := registered plan (pymodules st)\<rparr>)"
proof (induction plan arbitrary: st)
  case Nil
  show ?case by simp
next
  case (Cons x plan)
  obtain fn full where x: "x = (fn, full)" by (cases x)
  from Cons.prems have ok: "\<not> import_raises e fn" and rest: "\<forall>(fn, full) \<in> set plan. \<not> import_raises e fn"
    by (simp_all add: x)
  show ?case
    using ok by (simp add: x Cons.IH [OF rest] fun_upd_def cong: if_cong)
qed

lemma load_plan_fail:
  assumes "\<forall>(fn, full) \<in> set pre. \<not> import_raises e fn" and "import_raises e b"
  shows "load_plan e (pre @ (b, full) # post) st =
     Inl (Exit 1,
          (emit (import_events pre @
                 [Log Debug (Importing_module b), Import b,
                  Log Exception (Import_error b full), Log_shutdown]) st)
            \<lparr>pymodules := registered pre (pymodules st)\<rparr>)"
  using assms(1)
proof (induction pre arbitrary: st)
  case Nil
  show ?case using assms(2) by simp
next
  case (Cons x pre)
  obtain fn p where x: "x = (fn, p)" by (cases x)
  from Cons.prems have ok: "\<not> import_raises e fn" and rest: "\<forall>(fn, full) \<in> set pre. \<not> import_raises e fn"
    by (simp_all add: x)
  show ?case
    using ok by (simp add: x Cons.IH [OF rest] fun_upd_def cong: if_cong)
qed

lemma imports_of_append [simp]: "imports_of (xs @ ys) = imports_of xs @ imports_of ys"
  by (induction xs rule: imports_of.induct) simp_all

lemma imports_of_import_events [simp]: "imports_of (import_events plan) = map fst plan"
  by (induction plan) auto

lemma import_failures_simps [simp]:
  "import_failures [] = 0"
  "import_failures (xs @ ys) = import_failures xs + import_failures ys"
  "import_failures (Log Debug m # es) = import_failures es"
  "import_failures (Import fn # es) = import_failures es"
  "import_failures (Log_shutdown # es) = import_failures es"
  "import_failures (Log Exception (Import_error fn full) # es) = Suc (import_failures es)"
  by (simp_all add: import_failures_def is_import_error_def)

lemma import_failures_import_events [simp]: "import_failures (import_events plan) = 0"
  by (induction plan) auto




lemma load_plan_append:
  "\<forall>(fn, full) \<in> set pre. \<not> import_raises e fn \<Longrightarrow>
   load_plan e (pre @ rest) st =
     load_plan e rest
       ((emit (import_events pre) st)\<lparr>pymodules := registered pre (pymodules st)\<rparr>)"
proof (induction pre arbitrary: st)
  case Nil
  show ?case by simp
next
  case (Cons x pre)
  obtain fn p where x: "x = (fn, p)" by (cases x)
  from Cons.prems have ok: "\<not> import_raises e fn" and rest: "\<forall>(fn, full) \<in> set pre. \<not> import_raises e fn"
    by (simp_all add: x)
  show ?case
    using ok by (simp add: x Cons.IH [OF rest] fun_upd_def cong: if_cong)
qed

lemma load_plan_trace: "\<exists>es. trace (final (load_plan e plan st)) = trace st @ es"
proof (induction plan arbitrary: st)
  case Nil
  show ?case by simp
next
  case (Cons x plan)
  obtain fn p where x: "x = (fn, p)" by (cases x)
  show ?case
  proof (cases "import_raises e fn")
    case True
    then show ?thesis by (simp add: x)
  next
    case False
    obtain es where "trace (final (load_plan e plan
        ((emit [Log Debug (Importing_module fn), Import fn] st)
           \<lparr>pymodules := (pymodules st)(fn \<mapsto> Module fn)\<rparr>))) =
        trace ((emit [Log Debug (Importing_module fn), Import fn] st)
           \<lparr>pymodules := (pymodules st)(fn \<mapsto> Module fn)\<rparr>) @ es"
      using Cons.IH by blast
    then show ?thesis
      using False by (simp add: x)
  qed
qed

lemma in_imports_of: "fn \<in> set (imports_of es) \<longleftrightarrow> Import fn \<in> set es"
  by (induction es rule: imports_of.induct) auto

lemma load_plan_reaches:
  assumes "\<forall>(fn, p) \<in> set pre. \<not> import_raises e fn"
  shows "Import b \<in> set (events_since st (final (load_plan e (pre @ (b, full) # post) st)))"
proof (cases "import_raises e b")
  case True
  have "events_since st (final (load_plan e (pre @ (b, full) # post) st)) =
      import_events pre @ [Log Debug (Importing_module b), Import b,
        Log Exception (Import_error b full), Log_shutdown]"
    by (rule events_since_emit) (simp add: load_plan_fail [OF assms True])
  then show ?thesis by simp
next
  case False
  define st1 where "st1 = (emit (import_events pre) st)\<lparr>pymodules := registered pre (pymodules st)\<rparr>"
  define st2 where "st2 = (emit [Log Debug (Importing_module b), Import b] st1)
      \<lparr>pymodules := (pymodules st1)(b \<mapsto> Module b)\<rparr>"
  have "load_plan e (pre @ (b, full) # post) st = load_plan e post st2"
    using False by (simp add: load_plan_append [OF assms] st1_def st2_def)
  moreover obtain es where "trace (final (load_plan e post st2)) = trace st2 @ es"
    using load_plan_trace by blast
  ultimately have "trace (final (load_plan e (pre @ (b, full) # post) st)) =
      trace st @ (import_events pre @ [Log Debug (Importing_module b), Import b] @ es)"
    by (simp add: st1_def st2_def)
  then have "events_since st (final (load_plan e (pre @ (b, full) # post) st)) =
      import_events pre @ [Log Debug (Importing_module b), Import b] @ es"
    by (rule events_since_emit)
  then show ?thesis by simp
qed

lemma load_plan_imports_prefix:
  "\<exists>n. imports_of (events_since st (final (load_plan e plan st))) = take n (map fst plan)"
proof (cases "\<forall>(fn, p) \<in> set plan. \<not> import_raises e fn")
  case True
  have "events_since st (final (load_plan e plan st)) = import_events plan"
    by (rule events_since_emit) (simp add: load_plan_ok [OF True])
  then have "imports_of (events_since st (final (load_plan e plan st))) =
      take (length plan) (map fst plan)"
    by simp
  then show ?thesis by blast
next
  case False
  then have "\<exists>x \<in> set plan. import_raises e (fst x)"
    by (auto simp: case_prod_beta)
  then have "\<exists>pre x post. plan = pre @ x # post \<and> import_raises e (fst x) \<and>
      (\<forall>y \<in> set pre. \<not> import_raises e (fst y))"
    by (rule split_list_first_prop)
  then obtain pre x post where sp: "plan = pre @ x # post" "import_raises e (fst x)"
      "\<forall>y \<in> set pre. \<not> import_raises e (fst y)"
    by blast
  obtain b full where x: "x = (b, full)" by (cases x)
  have ok: "\<forall>(fn, p) \<in> set pre. \<not> import_raises e fn"
    using sp(3) by (auto simp: case_prod_beta)
  have "events_since st (final (load_plan e plan st)) =
      import_events pre @ [Log Debug (Importing_module b), Import b,
        Log Exception (Import_error b full), Log_shutdown]"
    using sp(2) by (intro events_since_emit) (simp add: sp(1) x load_plan_fail [OF ok])
  then have "imports_of (events_since st (final (load_plan e plan st))) =
      take (Suc (length pre)) (map fst plan)"
    by (simp add: sp(1) x)
  then show ?thesis by blast
qed

lemma load_library_scan:
  assumes "path = os_path_join lib ''pymodules''"
      and "path_exists e path" and "\<not> path_exists e (os_path_join path ''__init__.py'')"
  shows "load_library e lib st =
     load_plan e (discovered e path (sort (listdir e path)))
       (emit [Log Info Loading_library, Log Debug Pymodules_not_package, Sys_path_insert path] st)"
  using assms by (simp add: load_library_def Let_def load_entries_plan)


lemma load_library_events:
  assumes "path = os_path_join lib ''pymodules''"
      and "path_exists e path" and "\<not> path_exists e (os_path_join path ''__init__.py'')"
      and "st0 = emit [Log Info Loading_library, Log Debug Pymodules_not_package,
                       Sys_path_insert path] st"
  shows "events_since st (final (load_library e lib st)) =
     [Log Info Loading_library, Log Debug Pymodules_not_package, Sys_path_insert path] @
     events_since st0 (final (load_plan e (discovered e path (sort (listdir e path))) st0))"
proof -
  define r where "r = load_plan e (discovered e path (sort (listdir e path))) st0"
  have lib: "load_library e lib st = r"
    using load_library_scan [OF assms(1-3)] by (simp add: r_def assms(4))
  obtain es where es: "trace (final r) = trace st0 @ es"
    unfolding r_def using load_plan_trace by blast
  then have a: "events_since st0 (final r) = es"
    by (rule events_since_emit)
  have "trace (final r) = trace st @
      ([Log Info Loading_library, Log Debug Pymodules_not_package, Sys_path_insert path] @ es)"
    using es by (simp add: assms(4))
  then have "events_since st (final r) =
      [Log Info Loading_library, Log Debug Pymodules_not_package, Sys_path_insert path] @ es"
    by (rule events_since_emit)
  then show ?thesis
    using a lib by (simp add: r_def)
qed

lemma map_fst_discovered:
  "map fst (discovered e path fns) =
     map import_name (filter (\<lambda>fn. \<not> skipped e fn (os_path_join path fn)) fns)"
  by (simp add: discovered_def comp_def)

lemma import_name_strip: "endswith fn ''.py'' \<Longrightarrow> import_name fn @ ''.py'' = fn"
proof -
  assume a: "endswith fn ''.py''"
  then have "drop (length fn - 3) fn = ''.py''"
    by (simp add: endswith_def numeral_3_eq_3)
  then have "take (length fn - 3) fn @ ''.py'' = fn"
    by (metis append_take_drop_id)
  then show ?thesis
    using a by (simp add: import_name_def)
qed


section \<open>The identity transition: the anti-root guard\<close>

text \<open>
  Claim C1. After the uid step of the identity transition (the step returned the value
  \<open>uid2\<close> of the variable \<^verbatim>\<open>uid\<close> and the state \<open>st2\<close>), when the process's user id is
  0: if uid 0 was requested (\<open>uid2 = PInt 0\<close>) the guard only logs the warning and the
  transition goes on with the gid step; otherwise, and in particular when no uid was
  given and none is configured (\<open>uid2 = PNone\<close>), the transition logs the two critical
  messages (the second is the hint to set a uid), flushes the log and exits with
  status 1.
\<close>

theorem anti_root_guard:
  assumes "umask_value e umask st = (umask1, st1)"
      and "uid_step e (value_or_setting e ''uid'' uid) st1 = Inr (uid2, st2)"
      and "proc_uid st2 = 0"
  shows "(uid2 = PInt 0 \<longrightarrow>
            anti_root uid2 st2 = Inr (emit [Log Warning Running_as_root] st2) \<and>
            assume_uid e uid gid umask st =
              (case gid_step e (value_or_setting e ''gid'' gid)
                      (emit [Log Warning Running_as_root] st2) of
                 Inl h \<Rightarrow> Inl h
               | Inr (gid2, st4) \<Rightarrow> Inr (umask_step umask1 st4))) \<and>
         (uid2 \<noteq> PInt 0 \<longrightarrow>
            assume_uid e uid gid umask st =
              Inl (Exit 1, emit [Log Critical Do_not_run_as_root, Log Critical Set_a_UID,
                                 Log_shutdown] st2)) \<and>
         (uid = PNone \<and> settings_get e ''uid'' = PNone \<longrightarrow> uid2 = PNone)"
proof (intro conjI impI)
  assume "uid2 = PInt 0"
  then show "anti_root uid2 st2 = Inr (emit [Log Warning Running_as_root] st2)"
    using assms(3) by (simp add: anti_root_def)
  then show "assume_uid e uid gid umask st =
              (case gid_step e (value_or_setting e ''gid'' gid)
                      (emit [Log Warning Running_as_root] st2) of
                 Inl h \<Rightarrow> Inl h
               | Inr (gid2, st4) \<Rightarrow> Inr (umask_step umask1 st4))"
    using assms(1,2) by (simp add: assume_uid_def)
next
  assume "uid2 \<noteq> PInt 0"
  then have "anti_root uid2 st2 = Inl (Exit 1, emit [Log Critical Do_not_run_as_root,
      Log Critical Set_a_UID, Log_shutdown] st2)"
    using assms(3) by (simp add: anti_root_def)
  then show "assume_uid e uid gid umask st =
              Inl (Exit 1, emit [Log Critical Do_not_run_as_root, Log Critical Set_a_UID,
                                 Log_shutdown] st2)"
    using assms(1,2) by (simp add: assume_uid_def)
next
  assume "uid = PNone \<and> settings_get e ''uid'' = PNone"
  then have "value_or_setting e ''uid'' uid = PNone"
    by (simp add: value_or_setting_def py_int_def)
  with assms(2) show "uid2 = PNone"
    by (simp add: uid_step_def)
qed

text \<open>Witness for C1: root asking for uid 0 is warned; root asking for nothing is refused.\<close>

theorem anti_root_guard_witness:
  "assume_uid example_env (PStr ''0'') PNone PNone (started_as 0) =
     Inr (emit [Log Warning Running_as_root] (started_as 0)) \<and>
   assume_uid example_env PNone PNone PNone (started_as 0) =
     Inl (Exit 1, emit [Log Critical Do_not_run_as_root, Log Critical Set_a_UID, Log_shutdown]
                    (started_as 0))"
proof -
  have u: "umask_value example_env PNone (started_as 0) = (PNone, started_as 0)"
    by (simp add: umask_value_def example_env_def py_int_def truthy_def)
  have v0: "value_or_setting example_env ''uid'' (PStr ''0'') = PInt 0"
    by (simp add: value_or_setting_def example_env_def py_int_def decimal_def digit_val_def)
  have vn: "value_or_setting example_env ''uid'' PNone = PNone"
    by (simp add: value_or_setting_def example_env_def py_int_def)
  have g: "value_or_setting example_env ''gid'' PNone = PNone"
    by (simp add: value_or_setting_def example_env_def py_int_def)
  have s0: "uid_step example_env (value_or_setting example_env ''uid'' (PStr ''0'')) (started_as 0)
            = Inr (PInt 0, started_as 0)"
    by (simp add: v0 uid_step_def set_uid_def started_as_def)
  have sn: "uid_step example_env (value_or_setting example_env ''uid'' PNone) (started_as 0)
            = Inr (PNone, started_as 0)"
    by (simp add: vn uid_step_def)
  have r: "proc_uid (started_as 0) = 0"
    by (simp add: started_as_def)
  show ?thesis
    using anti_root_guard [OF u s0 r, of PNone] anti_root_guard [OF u sn r, of PNone]
    by (simp add: g gid_step_def umask_step_def)
qed

section \<open>The identity transition: a uid that is already the process's\<close>

text \<open>
  Claim C7. If the uid the transition resolves (the integer given or configured, or the
  uid \<^verbatim>\<open>pwd.getpwnam\<close> finds for the name) equals the process's current uid, the uid
  step returns with the state as it was: it adds no event to the trace. Over the whole
  transition there is no call of \<^verbatim>\<open>os.setuid\<close> and no "Assuming the UID" line, and the
  process's uid at the end is the uid at the start.
\<close>

theorem noop_uid_is_silent:
  assumes "value_or_setting e ''uid'' uid = PInt (proc_uid st) \<or>
           (\<exists>name. value_or_setting e ''uid'' uid = PStr name \<and>
                   getpwnam e name = Some (proc_uid st))"
  shows "uid_step e (value_or_setting e ''uid'' uid) (snd (umask_value e umask st)) =
           Inr (PInt (proc_uid st), snd (umask_value e umask st)) \<and>
         proc_uid (final (assume_uid e uid gid umask st)) = proc_uid st \<and>
         (\<forall>n. Os_setuid n \<notin> set (events_since st (final (assume_uid e uid gid umask st)))) \<and>
         (\<forall>n name. Log Info (Assuming_UID n name)
              \<notin> set (events_since st (final (assume_uid e uid gid umask st))))"
proof -
  define P where "P = (\<lambda>ev. (\<forall>n. ev \<noteq> Os_setuid n) \<and> (\<forall>n name. ev \<noteq> Log Info (Assuming_UID n name)))"
  define st1 where "st1 = snd (umask_value e umask st)"
  define umask1 where "umask1 = fst (umask_value e umask st)"
  define r where "r = assume_uid e uid gid umask st"
  have uv: "umask_value e umask st = (umask1, st1)"
    by (simp add: st1_def umask1_def)
  have u1: "proc_uid st1 = proc_uid st"
    by (simp add: st1_def umask_value_frame)
  have step: "uid_step e (value_or_setting e ''uid'' uid) st1 = Inr (PInt (proc_uid st), st1)"
    using assms u1 by (auto simp: uid_step_def set_uid_def)
  have e1: "extends P st st1"
    unfolding st1_def
    by (rule extends_mono [OF umask_value_extends]) (auto simp: P_def elim: warning_event.cases)
  have rest: "extends P st1 (final r) \<and> proc_uid (final r) = proc_uid st1"
  proof (cases "anti_root (PInt (proc_uid st)) st1")
    case (Inl h)
    obtain out st' where h: "h = (out, st')" by (cases h)
    have "extends guard_event st1 st'" "proc_uid st' = proc_uid st1"
      using anti_root_Inl [of "PInt (proc_uid st)" st1 out st'] Inl h by simp_all
    moreover have "r = Inl (out, st')"
      using uv step Inl h by (simp add: r_def assume_uid_def)
    ultimately show ?thesis
      by (auto intro: extends_mono simp: P_def elim: guard_event.cases)
  next
    case (Inr st3)
    have a3: "extends guard_event st1 st3" "proc_uid st3 = proc_uid st1"
      using anti_root_Inr [of "PInt (proc_uid st)" st1 st3] Inr by simp_all
    have p3: "extends P st1 st3"
      by (rule extends_mono [OF a3(1)]) (auto simp: P_def elim: guard_event.cases)
    show ?thesis
    proof (cases "gid_step e (value_or_setting e ''gid'' gid) st3")
      case (Inl h)
      obtain out st' where h: "h = (out, st')" by (cases h)
      have g: "extends gid_event st3 st'" "proc_uid st' = proc_uid st3"
        using gid_step_Inl [of e _ st3 out st'] Inl h by simp_all
      have "extends P st3 st'"
        by (rule extends_mono [OF g(1)]) (auto simp: P_def elim: gid_event.cases)
      moreover have "r = Inl (out, st')"
        using uv step Inr Inl h by (simp add: r_def assume_uid_def)
      ultimately show ?thesis
        using p3 a3(2) g(2) by (auto intro: extends_trans)
    next
      case Inr2: (Inr k)
      obtain gid2 st4 where k: "k = (gid2, st4)" by (cases k)
      have g: "extends gid_event st3 st4" "proc_uid st4 = proc_uid st3"
        using gid_step_Inr [of e _ st3 gid2 st4] Inr2 k by simp_all
      have p4: "extends P st3 st4"
        by (rule extends_mono [OF g(1)]) (auto simp: P_def elim: gid_event.cases)
      have p5: "extends P st4 (umask_step umask1 st4)"
        by (rule extends_mono [where P = umask_event])
           (auto simp: umask_step_frame P_def elim: umask_event.cases)
      have "r = Inr (umask_step umask1 st4)"
        using uv step Inr Inr2 k by (simp add: r_def assume_uid_def)
      then show ?thesis
        using p3 p4 p5 a3(2) g(2) by (auto intro: extends_trans simp: umask_step_frame)
    qed
  qed
  have "extends P st (final r)"
    using e1 rest by (auto intro: extends_trans)
  then have "\<And>ev. ev \<in> set (events_since st (final r)) \<Longrightarrow> P ev"
    by (rule extends_set)
  then have "(\<forall>n. Os_setuid n \<notin> set (events_since st (final r))) \<and>
      (\<forall>n name. Log Info (Assuming_UID n name) \<notin> set (events_since st (final r)))"
    unfolding P_def by blast
  then show ?thesis
    using step rest u1 by (simp add: r_def st1_def)
qed

text \<open>Witness for C7: the user \<^verbatim>\<open>mud\<close> (uid 1000) asks for \<^verbatim>\<open>--uid mud\<close>.\<close>

theorem noop_uid_is_silent_witness:
  "value_or_setting example_env ''uid'' (PStr ''mud'') = PStr ''mud'' \<and>
   getpwnam example_env ''mud'' = Some (proc_uid (started_as 1000)) \<and>
   uid_step example_env (PStr ''mud'') (started_as 1000) = Inr (PInt 1000, started_as 1000) \<and>
   assume_uid example_env (PStr ''mud'') PNone PNone (started_as 1000) = Inr (started_as 1000) \<and>
   Os_setuid 1000 \<notin> set (events_since (started_as 1000)
       (final (assume_uid example_env (PStr ''mud'') PNone PNone (started_as 1000))))"
proof -
  have v: "value_or_setting example_env ''uid'' (PStr ''mud'') = PStr ''mud''"
    by (simp add: value_or_setting_def example_env_def py_int_def decimal_def digit_val_def)
  have n: "getpwnam example_env ''mud'' = Some (proc_uid (started_as 1000))"
    by (simp add: example_env_def started_as_def)
  have u: "umask_value example_env PNone (started_as 1000) = (PNone, started_as 1000)"
    by (simp add: umask_value_def example_env_def py_int_def truthy_def)
  have g: "value_or_setting example_env ''gid'' PNone = PNone"
    by (simp add: value_or_setting_def example_env_def py_int_def)
  have p: "proc_uid (started_as 1000) = 1000"
    by (simp add: started_as_def)
  have a: "assume_uid example_env (PStr ''mud'') PNone PNone (started_as 1000) = Inr (started_as 1000)"
    using n by (simp add: assume_uid_def u v g uid_step_def set_uid_def anti_root_def gid_step_def
        umask_step_def p)
  show ?thesis
    using noop_uid_is_silent [of example_env "PStr ''mud''" "started_as 1000" PNone PNone] v n u a
    by (simp add: p)
qed


section \<open>The identity transition: the umask\<close>







section \<open>The module loader: fail-fast loading\<close>





section \<open>The module loader: the order of loading\<close>

lemma example_plugins:
  "map import_name
     (filter (\<lambda>fn. \<not> skipped example_env fn (os_path_join ''/srv/mud/lib/pymodules'' fn))
        (sort (listdir example_env ''/srv/mud/lib/pymodules''))) = [''a'', ''b'', ''pkg2'']"
  by (simp add: example_env_def skipped_def import_name_def
      startswith_def endswith_def os_path_join_def)

lemma example_pymodules:
  "''/srv/mud/lib/pymodules'' = os_path_join ''/srv/mud/lib'' ''pymodules''"
  "path_exists example_env ''/srv/mud/lib/pymodules''"
  "\<not> path_exists example_env (os_path_join ''/srv/mud/lib/pymodules'' ''__init__.py'')"
  by (simp_all add: example_env_def os_path_join_def startswith_def endswith_def)

lemma scan_imports:
  assumes "path = os_path_join lib ''pymodules''"
      and "path_exists e path" and "\<not> path_exists e (os_path_join path ''__init__.py'')"
  shows "(\<exists>n. imports_of (events_since st (final (load_library e lib st))) =
            take n (map import_name
              (filter (\<lambda>fn. \<not> skipped e fn (os_path_join path fn)) (sort (listdir e path))))) \<and>
         ((\<forall>fn. \<not> import_raises e fn) \<longrightarrow>
            imports_of (events_since st (final (load_library e lib st))) =
              map import_name
                (filter (\<lambda>fn. \<not> skipped e fn (os_path_join path fn)) (sort (listdir e path))))"
proof -
  define st0 where "st0 = emit [Log Info Loading_library, Log Debug Pymodules_not_package,
      Sys_path_insert path] st"
  define plan where "plan = discovered e path (sort (listdir e path))"
  have ev: "imports_of (events_since st (final (load_library e lib st))) =
      imports_of (events_since st0 (final (load_plan e plan st0)))"
    using load_library_events [OF assms st0_def] by (simp add: plan_def)
  have names: "map fst plan = map import_name
      (filter (\<lambda>fn. \<not> skipped e fn (os_path_join path fn)) (sort (listdir e path)))"
    by (simp add: plan_def map_fst_discovered)
  have a: "\<exists>n. imports_of (events_since st (final (load_library e lib st))) =
      take n (map import_name
        (filter (\<lambda>fn. \<not> skipped e fn (os_path_join path fn)) (sort (listdir e path))))"
    using load_plan_imports_prefix [of st0 e plan] by (simp add: ev names)
  have b: "(\<forall>fn. \<not> import_raises e fn) \<longrightarrow>
      imports_of (events_since st (final (load_library e lib st))) =
        map import_name
          (filter (\<lambda>fn. \<not> skipped e fn (os_path_join path fn)) (sort (listdir e path)))"
  proof
    assume "\<forall>fn. \<not> import_raises e fn"
    then have ok: "\<forall>(fn, p) \<in> set plan. \<not> import_raises e fn"
      by auto
    have "events_since st0 (final (load_plan e plan st0)) = import_events plan"
      by (rule events_since_emit) (simp add: load_plan_ok [OF ok])
    then show "imports_of (events_since st (final (load_library e lib st))) =
        map import_name
          (filter (\<lambda>fn. \<not> skipped e fn (os_path_join path fn)) (sort (listdir e path)))"
      by (simp add: ev names)
  qed
  show ?thesis
    using a b by blast
qed

text \<open>
  Claim C3. When the plugin directory is not itself a package, the loader imports, in
  this order, the entries of the sorted listing that it does not skip, each under its
  module name: the calls of \<^verbatim>\<open>__import__\<close> are an initial part of that list (all of
  it when no import raises). An entry is skipped exactly when its name starts with
  \<^verbatim>\<open>.\<close>, or it is a file whose name does not end in \<^verbatim>\<open>.py\<close>, or it is a directory
  without \<^verbatim>\<open>__init__.py\<close>; the module name is the name without the suffix \<^verbatim>\<open>.py\<close>.
  For the listing \<^verbatim>\<open>b.py\<close>, \<^verbatim>\<open>a.py\<close>, \<^verbatim>\<open>.hidden.py\<close>, \<^verbatim>\<open>pkgdir\<close> (no marker),
  \<^verbatim>\<open>pkg2\<close> (marker) the imports are \<^verbatim>\<open>a\<close>, \<^verbatim>\<open>b\<close>, \<^verbatim>\<open>pkg2\<close>.
\<close>

theorem deterministic_plugin_order:
  assumes "path = os_path_join lib ''pymodules''"
      and "path_exists e path" and "\<not> path_exists e (os_path_join path ''__init__.py'')"
  shows "(\<exists>n. imports_of (events_since st (final (load_library e lib st))) =
            take n (map import_name
              (filter (\<lambda>fn. \<not> skipped e fn (os_path_join path fn)) (sort (listdir e path))))) \<and>
         ((\<forall>fn. \<not> import_raises e fn) \<longrightarrow>
            imports_of (events_since st (final (load_library e lib st))) =
              map import_name
                (filter (\<lambda>fn. \<not> skipped e fn (os_path_join path fn)) (sort (listdir e path)))) \<and>
         sorted (filter (\<lambda>fn. \<not> skipped e fn (os_path_join path fn)) (sort (listdir e path))) \<and>
         (\<forall>fn full. skipped e fn full \<longleftrightarrow>
            startswith fn ''.'' \<or>
            (path_isfile e full \<and> \<not> endswith fn ''.py'') \<or>
            (path_isdir e full \<and> \<not> path_exists e (os_path_join full ''__init__.py''))) \<and>
         (\<forall>fn. endswith fn ''.py'' \<longrightarrow> import_name fn @ ''.py'' = fn) \<and>
         (\<forall>fn. \<not> endswith fn ''.py'' \<longrightarrow> import_name fn = fn) \<and>
         imports_of (events_since (started_as 1000)
           (final (load_library example_env ''/srv/mud/lib'' (started_as 1000)))) =
           [''a'', ''b'', ''pkg2'']"
proof -
  have ex: "imports_of (events_since (started_as 1000)
      (final (load_library example_env ''/srv/mud/lib'' (started_as 1000)))) =
      [''a'', ''b'', ''pkg2'']"
  proof -
    have "\<forall>fn. \<not> import_raises example_env fn"
      by (simp add: example_env_def)
    then show ?thesis
      using scan_imports [OF example_pymodules, of "started_as 1000"]
      by (simp add: example_plugins)
  qed
  have so: "sorted (filter (\<lambda>fn. \<not> skipped e fn (os_path_join path fn)) (sort (listdir e path)))"
    by (rule sorted_wrt_filter) simp
  have sk: "\<forall>fn full. skipped e fn full \<longleftrightarrow>
      startswith fn ''.'' \<or>
      (path_isfile e full \<and> \<not> endswith fn ''.py'') \<or>
      (path_isdir e full \<and> \<not> path_exists e (os_path_join full ''__init__.py''))"
    by (simp add: skipped_def)
  have s1: "\<forall>fn. endswith fn ''.py'' \<longrightarrow> import_name fn @ ''.py'' = fn"
    by (simp add: import_name_strip)
  have s2: "\<forall>fn. \<not> endswith fn ''.py'' \<longrightarrow> import_name fn = fn"
    by (simp add: import_name_def)
  note a = scan_imports [OF assms, of st, THEN conjunct1]
  note b = scan_imports [OF assms, of st, THEN conjunct2]
  show ?thesis
    using a b so sk s1 s2 ex by (intro conjI) assumption+
qed

text \<open>Witness for C3: the example directory, the process run by root; \<^verbatim>\<open>.hidden.py\<close>
  and \<^verbatim>\<open>pkgdir\<close> are not imported.\<close>

theorem deterministic_plugin_order_witness:
  "path_exists example_env (os_path_join ''/srv/mud/lib'' ''pymodules'') \<and>
   \<not> path_exists example_env
       (os_path_join (os_path_join ''/srv/mud/lib'' ''pymodules'') ''__init__.py'') \<and>
   imports_of (events_since (started_as 0)
     (final (load_library example_env ''/srv/mud/lib'' (started_as 0)))) =
     [''a'', ''b'', ''pkg2''] \<and>
   ''.hidden'' \<notin> set (imports_of (events_since (started_as 0)
     (final (load_library example_env ''/srv/mud/lib'' (started_as 0))))) \<and>
   ''pkgdir'' \<notin> set (imports_of (events_since (started_as 0)
     (final (load_library example_env ''/srv/mud/lib'' (started_as 0)))))"
proof -
  have p: "os_path_join ''/srv/mud/lib'' ''pymodules'' = ''/srv/mud/lib/pymodules''"
    using example_pymodules(1) by simp
  have ok: "\<forall>fn. \<not> import_raises example_env fn"
    by (simp add: example_env_def)
  have "imports_of (events_since (started_as 0)
      (final (load_library example_env ''/srv/mud/lib'' (started_as 0)))) =
      [''a'', ''b'', ''pkg2'']"
    using deterministic_plugin_order [OF example_pymodules, of "started_as 0"] ok
    by (simp add: example_plugins)
  then show ?thesis
    using example_pymodules(2,3) by (simp add: p)
qed


section \<open>The module loader: a package directory whose name ends in \<^verbatim>\<open>.py\<close>\<close>

text \<open>
  Claim C10. A subdirectory \<open>fn\<close> of the scanned plugin directory whose name ends in
  \<^verbatim>\<open>.py\<close> and which holds \<^verbatim>\<open>__init__.py\<close> (and whose name does not start with \<^verbatim>\<open>.\<close>,
  so that the scan does not skip it) is not skipped, and the name passed to
  \<^verbatim>\<open>__import__\<close> is \<open>fn\<close> without its last three characters, which differs from the
  name on disk. The loader makes that call unless the import of an entry sorted before
  \<open>fn\<close> raised.
\<close>

theorem package_directory_suffix_stripped:
  assumes "path = os_path_join lib ''pymodules''"
      and "path_exists e path" and "\<not> path_exists e (os_path_join path ''__init__.py'')"
      and "fn \<in> set (listdir e path)"
      and "path_isdir e (os_path_join path fn)"
      and "path_exists e (os_path_join (os_path_join path fn) ''__init__.py'')"
      and "endswith fn ''.py''" and "\<not> startswith fn ''.''"
      and "\<forall>fn' \<in> set (listdir e path). fn' < fn \<longrightarrow> \<not> import_raises e (import_name fn')"
  shows "\<not> skipped e fn (os_path_join path fn) \<and>
         import_name fn = take (length fn - 3) fn \<and>
         import_name fn @ ''.py'' = fn \<and>
         import_name fn \<noteq> fn \<and>
         Import (import_name fn) \<in> set (events_since st (final (load_library e lib st)))"
proof -
  define Q where "Q = (\<lambda>fn. \<not> skipped e fn (os_path_join path fn))"
  define entries where "entries = filter Q (sort (listdir e path))"
  define f where "f = (\<lambda>fn. (import_name fn, os_path_join path fn))"
  define st0 where "st0 = emit [Log Info Loading_library, Log Debug Pymodules_not_package,
      Sys_path_insert path] st"
  have q: "Q fn"
    using assms(5-8) by (simp add: Q_def skipped_def)
  have nm: "import_name fn = take (length fn - 3) fn"
    using assms(7) by (simp add: import_name_def)
  have strip: "import_name fn @ ''.py'' = fn"
    using assms(7) by (rule import_name_strip)
  have ne: "import_name fn \<noteq> fn"
  proof
    assume "import_name fn = fn"
    with strip have "fn @ ''.py'' = fn" by simp
    then have "length (fn @ ''.py'') = length fn" by simp
    then show False by simp
  qed
  have "fn \<in> set entries"
    using assms(4) q by (simp add: entries_def)
  then obtain ys zs where sp: "entries = ys @ fn # zs" "fn \<notin> set ys"
    by (auto dest: split_list_first)
  have "sorted entries"
    unfolding entries_def by (rule sorted_wrt_filter) simp
  then have le: "\<forall>y \<in> set ys. y \<le> fn"
    by (simp add: sp(1) sorted_append)
  have sub: "set ys \<subseteq> set (listdir e path)"
  proof -
    have "set ys \<subseteq> set entries" by (auto simp: sp(1))
    also have "\<dots> \<subseteq> set (listdir e path)" by (auto simp: entries_def)
    finally show ?thesis .
  qed
  have ok: "\<forall>(m, p) \<in> set (map f ys). \<not> import_raises e m"
  proof -
    {
      fix y assume y: "y \<in> set ys"
      then have "y \<le> fn" "y \<noteq> fn" using le sp(2) by auto
      then have "y < fn" by simp
      moreover have "y \<in> set (listdir e path)" using y sub by auto
      ultimately have "\<not> import_raises e (import_name y)" using assms(9) by blast
    }
    then show ?thesis by (auto simp: f_def)
  qed
  have plan: "discovered e path (sort (listdir e path)) =
      map f ys @ (import_name fn, os_path_join path fn) # map f zs"
  proof -
    have "discovered e path (sort (listdir e path)) = map f entries"
      by (simp add: discovered_def entries_def Q_def f_def)
    then show ?thesis by (simp add: sp(1) f_def)
  qed
  have "Import (import_name fn) \<in> set (events_since st0
      (final (load_plan e (discovered e path (sort (listdir e path))) st0)))"
    unfolding plan by (rule load_plan_reaches [OF ok])
  then have "Import (import_name fn) \<in> set (events_since st (final (load_library e lib st)))"
    using load_library_events [OF assms(1-3) st0_def] by simp
  then show ?thesis
    using q nm strip ne by (simp add: Q_def)
qed

text \<open>Witness for C10: the directory \<^verbatim>\<open>foo.py\<close> is imported as \<^verbatim>\<open>foo\<close>.\<close>

theorem package_directory_suffix_stripped_witness:
  "path_isdir package_env (os_path_join ''/srv/mud/lib/pymodules'' ''foo.py'') \<and>
   import_name ''foo.py'' = ''foo'' \<and>
   Import ''foo'' \<in> set (events_since (started_as 1000)
     (final (load_library package_env ''/srv/mud/lib'' (started_as 1000))))"
proof -
  have p: "''/srv/mud/lib/pymodules'' = os_path_join ''/srv/mud/lib'' ''pymodules''"
    by (simp add: os_path_join_def startswith_def endswith_def)
  have x: "path_exists package_env ''/srv/mud/lib/pymodules''"
    by (simp add: package_env_def)
  have n: "\<not> path_exists package_env (os_path_join ''/srv/mud/lib/pymodules'' ''__init__.py'')"
    by (simp add: package_env_def os_path_join_def startswith_def endswith_def)
  have m: "''foo.py'' \<in> set (listdir package_env ''/srv/mud/lib/pymodules'')"
    by (simp add: package_env_def)
  have d: "path_isdir package_env (os_path_join ''/srv/mud/lib/pymodules'' ''foo.py'')"
    by (simp add: package_env_def os_path_join_def startswith_def endswith_def)
  have i: "path_exists package_env
      (os_path_join (os_path_join ''/srv/mud/lib/pymodules'' ''foo.py'') ''__init__.py'')"
    by (simp add: package_env_def os_path_join_def startswith_def endswith_def)
  have py: "endswith ''foo.py'' ''.py''" and hid: "\<not> startswith ''foo.py'' ''.''"
    by (simp_all add: endswith_def startswith_def)
  have ok: "\<forall>fn' \<in> set (listdir package_env ''/srv/mud/lib/pymodules'').
      fn' < ''foo.py'' \<longrightarrow> \<not> import_raises package_env (import_name fn')"
    by (simp add: package_env_def example_env_def)
  have nm: "import_name ''foo.py'' = ''foo''"
    by (simp add: import_name_def endswith_def)
  show ?thesis
    using package_directory_suffix_stripped [OF p x n m d i py hid ok, of "started_as 1000"] d
    by (simp add: nm)
qed


section \<open>The phases before the event loop extend the trace\<close>

lemma id_event_startup: "id_event ev \<Longrightarrow> startup_event ev"
  by (auto simp: id_event_def startup_event_def
           elim!: uid_event.cases guard_event.cases gid_event.cases)

lemma warning_event_startup: "warning_event ev \<Longrightarrow> startup_event ev"
  by (auto simp: startup_event_def elim!: warning_event.cases)

lemma umask_event_startup: "umask_event ev \<Longrightarrow> startup_event ev"
  by (auto simp: startup_event_def elim!: umask_event.cases)

lemma assume_uid_extends: "extends startup_event st (final (assume_uid e uid gid umask st))"
proof -
  define st1 where "st1 = snd (umask_value e umask st)"
  define r where "r = id_steps e (value_or_setting e ''uid'' uid) (value_or_setting e ''gid'' gid) st1"
  have a: "extends startup_event st st1"
    unfolding st1_def by (rule extends_mono [OF umask_value_extends]) (rule warning_event_startup)
  have b: "extends startup_event st1 (final r)"
    unfolding r_def using id_steps_final [of st1 e]
    by (auto intro: extends_mono id_event_startup)
  show ?thesis
  proof (cases r)
    case (Inl h)
    then have "assume_uid e uid gid umask st = Inl h"
      by (simp add: assume_uid_id_steps r_def [symmetric] st1_def [symmetric])
    then have "final (assume_uid e uid gid umask st) = final r"
      using Inl by simp
    then show ?thesis
      using a b by (auto intro: extends_trans)
  next
    case (Inr st4)
    then have "assume_uid e uid gid umask st = Inr (umask_step (fst (umask_value e umask st)) st4)"
      by (simp add: assume_uid_id_steps r_def [symmetric] st1_def [symmetric])
    moreover have "extends startup_event st4 (umask_step (fst (umask_value e umask st)) st4)"
      by (rule extends_mono [where P = umask_event])
         (simp_all add: umask_step_frame umask_event_startup)
    moreover have "extends startup_event st1 st4"
      using b Inr by simp
    ultimately show ?thesis
      using a by (auto intro: extends_trans)
  qed
qed

lemma assume_uid_exit: "assume_uid e uid gid umask st = Inl (out, st') \<Longrightarrow> out = Exit 1"
  by (auto simp: assume_uid_id_steps split: sum.splits dest: id_steps_exit)

lemma identity_calls_simps [simp]:
  "identity_calls [] = 0"
  "identity_calls (xs @ ys) = identity_calls xs + identity_calls ys"
  "identity_calls (Call_assume_uid # es) = Suc (identity_calls es)"
  by (simp_all add: identity_calls_def)

lemma identity_calls_startup: "list_all startup_event es \<Longrightarrow> identity_calls es = 0"
  by (induction es) (auto simp: identity_calls_def startup_event_def)

lemma hook_runs_simps [simp]:
  "hook_runs [] = 0"
  "hook_runs (xs @ ys) = hook_runs xs + hook_runs ys"
  by (simp_all add: hook_runs_def)


lemma run_part_quiet:
  "extends startup_event st st' \<Longrightarrow> run_part 0 st st'"
  unfolding run_part_def
  by (auto intro: extends_mono dest: extendsD identity_calls_startup)

lemma run_part_trans:
  assumes "run_part c st st'" and "run_part d st' st''"
  shows "run_part (c + d) st st''"
proof -
  have "events_since st st'' = events_since st st' @ events_since st' st''"
    using assms by (auto simp: run_part_def intro: events_since_append)
  then show ?thesis
    using assms by (auto simp: run_part_def intro: extends_trans)
qed

lemma load_plan_extends:
  "extends startup_event st (final (load_plan e plan st)) \<and>
   same_ids st (final (load_plan e plan st))"
proof (induction plan arbitrary: st)
  case Nil
  show ?case by (simp add: same_ids_def)
next
  case (Cons x plan)
  obtain fn p where x: "x = (fn, p)" by (cases x)
  define st1 where "st1 = (emit [Log Debug (Importing_module fn), Import fn] st)
      \<lparr>pymodules := (pymodules st)(fn \<mapsto> Module fn)\<rparr>"
  show ?case
  proof (cases "import_raises e fn")
    case True
    have "extends startup_event st (emit [Log Debug (Importing_module fn), Import fn,
        Log Exception (Import_error fn p), Log_shutdown] st)"
      by (rule extends_emit) (simp add: startup_event_def)
    then show ?thesis
      using True by (simp add: x same_ids_def)
  next
    case False
    have "extends startup_event st st1"
      by (rule extendsI [where es = "[Log Debug (Importing_module fn), Import fn]"])
         (simp_all add: st1_def startup_event_def)
    moreover have "same_ids st st1"
      by (simp add: st1_def same_ids_def)
    moreover have "load_plan e (x # plan) st = load_plan e plan st1"
      using False by (simp add: x st1_def)
    ultimately show ?thesis
      using Cons.IH [of st1] by (auto intro: extends_trans simp: same_ids_def)
  qed
qed

lemma load_plan_exit: "load_plan e plan st = Inl (out, st') \<Longrightarrow> out = Exit 1"
  by (induction plan arbitrary: st) (auto simp: Let_def split: if_splits)


lemma load_library_extends:
  "extends startup_event st (final (load_library e lib st)) \<and>
   same_ids st (final (load_library e lib st))"
proof -
  define path where "path = os_path_join lib ''pymodules''"
  define st0 where "st0 = emit [Log Info Loading_library, Log Debug Pymodules_not_package,
      Sys_path_insert path] st"
  have a: "extends startup_event st st0" "same_ids st st0"
    unfolding st0_def by (auto intro!: extends_emit simp: startup_event_def same_ids_def)
  have b: "extends startup_event st0 (final (load_plan e (discovered e path (sort (listdir e path))) st0))"
    "same_ids st0 (final (load_plan e (discovered e path (sort (listdir e path))) st0))"
    using load_plan_extends by simp_all
  have c: "extends startup_event st
      (emit [Log Info Loading_library, Log Error Cannot_find_pymodules, Log_shutdown] st)"
    "extends startup_event st
      (emit [Log Info Loading_library, Log Debug (Importing_module ''pymodules''),
             Import ''pymodules''] st)"
    by (auto intro!: extends_emit simp: startup_event_def)
  show ?thesis
    using a b c
    by (auto simp: load_library_def Let_def load_entries_plan path_def [symmetric]
          st0_def [symmetric] same_ids_def intro: extends_trans)
qed

lemma load_library_exit: "load_library e lib st = Inl (out, st') \<Longrightarrow> out = Exit 1"
  by (auto simp: load_library_def Let_def load_entries_plan split: if_splits dest: load_plan_exit)

lemma enter_library_Inl:
  "enter_library e a st = Inl (out, st') \<Longrightarrow>
   out = Exit 1 \<and> extends startup_event st st' \<and> same_ids st st'"
  by (auto simp: enter_library_def Let_def same_ids_def startup_event_def
           split: if_splits intro!: extendsI [where es = "[Log_initialize (args_color a) (args_level a)
             (os_path_join (args_lib a) (args_log a)), Log Naked Banner,
             Log Error (Cannot_find_library (realpath e (args_lib a))), Log_shutdown]"])

lemma enter_library_Inr:
  assumes "enter_library e a st = Inr (path, st')"
  shows "path = realpath e (args_lib a) \<and> path_exists e path \<and>
     (path_exists e (os_path_join path ''muddata'') \<or> path_exists e (os_path_join path ''config'')) \<and>
     extends startup_event st st' \<and> same_ids st st'"
proof -
  have a: "extends startup_event st (emit [Log_initialize (args_color a) (args_level a)
             (os_path_join (args_lib a) (args_log a)), Log Naked Banner] st)"
    by (rule extends_emit) (simp add: startup_event_def)
  have b: "extends startup_event st (emit [Log_initialize (args_color a) (args_level a)
             (os_path_join (args_lib a) (args_log a)), Log Naked Banner,
             Log Info (Changing_directory (realpath e (args_lib a))),
             Os_chdir (realpath e (args_lib a))] st)"
    by (rule extends_emit) (simp add: startup_event_def)
  show ?thesis
    using assms a b
    by (auto simp: enter_library_def Let_def same_ids_def split: if_splits)
qed

lemma configure_extends:
  "extends startup_event st (configure a st) \<and> same_ids st (configure a st)"
  by (auto simp: configure_def same_ids_def startup_event_def intro!: extends_emit)

lemma compatibility_extends:
  "extends startup_event st (compatibility e st) \<and> same_ids st (compatibility e st)"
  by (auto simp: compatibility_def Let_def same_ids_def inject_def startup_event_def
           intro!: extends_emit)

lemma register_signals_extends:
  "extends startup_event st (register_signals e st) \<and> same_ids st (register_signals e st)"
proof -
  have "extends startup_event st ((emit [Log Todo Copyover_recovery, Signal_signal] st)
      \<lparr>hup_handler := True\<rparr>)"
    by (rule extendsI [where es = "[Log Todo Copyover_recovery, Signal_signal]"])
       (simp_all add: startup_event_def)
  moreover have "extends startup_event st (emit [Log Todo Copyover_recovery] st)"
    by (rule extends_emit) (simp add: startup_event_def)
  ultimately show ?thesis
    by (auto simp: register_signals_def Let_def same_ids_def)
qed


lemma same_ids_refl [simp]: "same_ids st st"
  by (simp add: same_ids_def)

lemma same_ids_trans: "same_ids st st' \<Longrightarrow> same_ids st' st'' \<Longrightarrow> same_ids st st''"
  by (simp add: same_ids_def)

lemma run_part_refl [simp]: "run_part 0 st st"
  by (rule run_part_quiet) simp

lemma run_part_call: "run_part 1 st (emit [Call_assume_uid] st)"
proof -
  have "extends (\<lambda>ev. startup_event ev \<or> ev = Call_assume_uid) st (emit [Call_assume_uid] st)"
    by (rule extends_emit) simp
  moreover have "events_since st (emit [Call_assume_uid] st) = [Call_assume_uid]"
    by (rule events_since_emit) simp
  ultimately show ?thesis
    by (simp add: run_part_def)
qed

lemma early_identity_part:
  "run_part (if do_uid e \<and> args_early a then 1 else 0) st (final (early_identity e a st))"
proof (cases "do_uid e \<and> args_early a")
  case True
  have "run_part (1 + 0) st (final (assume_uid e (of_arg (args_uid a)) (of_arg (args_gid a))
      (of_arg (args_umask a)) (emit [Call_assume_uid] st)))"
    by (rule run_part_trans [OF run_part_call]) (rule run_part_quiet, rule assume_uid_extends)
  then show ?thesis
    using True by (simp add: early_identity_def)
next
  case False
  then show ?thesis
    by (auto simp: early_identity_def)
qed

lemma late_identity_part:
  "run_part (if do_uid e \<and> \<not> args_early a then 1 else 0) st (final (late_identity e a st))"
proof (cases "do_uid e \<and> \<not> args_early a")
  case True
  have "run_part (1 + 0) st (final (assume_uid e (of_arg (args_uid a)) (of_arg (args_gid a))
      (of_arg (args_umask a)) (emit [Call_assume_uid] st)))"
    by (rule run_part_trans [OF run_part_call]) (rule run_part_quiet, rule assume_uid_extends)
  then show ?thesis
    using True by (simp add: late_identity_def)
next
  case False
  then show ?thesis
    by (auto simp: late_identity_def)
qed

lemma early_identity_exit: "early_identity e a st = Inl (out, st') \<Longrightarrow> out = Exit 1"
  by (auto simp: early_identity_def split: if_splits dest: assume_uid_exit)

lemma late_identity_exit: "late_identity e a st = Inl (out, st') \<Longrightarrow> out = Exit 1"
  by (auto simp: late_identity_def split: if_splits dest: assume_uid_exit)

lemma startup_exit:
  assumes "startup e a st = Inl (out, st')"
  shows "out = Exit 1"
  using assms
  by (auto simp: startup_def split: sum.splits prod.splits
           dest: enter_library_Inl early_identity_exit load_library_exit late_identity_exit)

lemma startup_part:
  "\<exists>c. run_part c st (final (startup e a st)) \<and> c \<le> 1 \<and> (\<not> do_uid e \<longrightarrow> c = 0) \<and>
       ((\<exists>st'. startup e a st = Inr st') \<and> do_uid e \<longrightarrow> c = 1)"
proof (cases "enter_library e a st")
  case (Inl h)
  obtain out st' where h: "h = (out, st')" by (cases h)
  have "run_part 0 st st'"
    using enter_library_Inl [of e a st out st'] Inl h by (auto intro: run_part_quiet)
  moreover have "startup e a st = Inl (out, st')"
    using Inl h by (simp add: startup_def)
  ultimately show ?thesis by auto
next
  case (Inr k)
  obtain path st1 where k: "k = (path, st1)" by (cases k)
  define st1' where "st1' = configure a st1"
  define r1 where "r1 = early_identity e a st1'"
  define c1 :: nat where "c1 = (if do_uid e \<and> args_early a then 1 else 0)"
  have p1: "run_part 0 st st1'"
  proof -
    have "extends startup_event st st1" using enter_library_Inr [of e a st path st1] Inr k by simp
    moreover have "extends startup_event st1 st1'" by (simp add: st1'_def configure_extends)
    ultimately show ?thesis by (auto intro: run_part_quiet extends_trans)
  qed
  have p2: "run_part (0 + c1) st (final r1)"
    unfolding r1_def c1_def by (rule run_part_trans [OF p1 early_identity_part])
  show ?thesis
  proof (cases r1)
    case Inl1: (Inl h)
    then have "startup e a st = r1"
      using Inr k by (simp add: startup_def r1_def st1'_def)
    then show ?thesis
      using p2 Inl1 by (auto simp: c1_def)
  next
    case Inr1: (Inr st2)
    define st2' where "st2' = compatibility e st2"
    define r2 where "r2 = load_library e path st2'"
    have p3: "run_part (0 + c1) st (final r2)"
    proof -
      have "extends startup_event st2 st2'" by (simp add: st2'_def compatibility_extends)
      moreover have "extends startup_event st2' (final r2)" by (simp add: r2_def load_library_extends)
      ultimately have "run_part 0 st2 (final r2)" by (auto intro: run_part_quiet extends_trans)
      moreover have "run_part c1 st st2"
        using p2 Inr1 by simp
      ultimately have "run_part (c1 + 0) st (final r2)"
        by (rule run_part_trans [rotated])
      then show ?thesis by simp
    qed
    show ?thesis
    proof (cases r2)
      case Inl2: (Inl h)
      then have "startup e a st = r2"
        using Inr k Inr1 by (simp add: startup_def r1_def [symmetric] st1'_def [symmetric]
            r2_def [symmetric] st2'_def [symmetric])
      then show ?thesis
        using p3 Inl2 by (auto simp: c1_def)
    next
      case Inr2: (Inr st3)
      define st3' where "st3' = register_signals e st3"
      define c2 :: nat where "c2 = (if do_uid e \<and> \<not> args_early a then 1 else 0)"
      have st: "startup e a st = late_identity e a st3'"
        using Inr k Inr1 Inr2 by (simp add: startup_def r1_def [symmetric] st1'_def [symmetric]
            r2_def [symmetric] st2'_def [symmetric] st3'_def)
      have "run_part 0 st3 st3'"
        by (rule run_part_quiet) (simp add: st3'_def register_signals_extends)
      moreover have "run_part c1 st st3"
        using p3 Inr2 by simp
      ultimately have "run_part (c1 + 0) st st3'"
        by (rule run_part_trans [rotated])
      then have "run_part (c1 + 0 + c2) st (final (late_identity e a st3'))"
        unfolding c2_def by (rule run_part_trans [OF _ late_identity_part])
      then show ?thesis
        using st by (auto simp: c1_def c2_def)
    qed
  qed
qed

lemma main_exit:
  assumes "startup e a st = Inl (out, st')"
  shows "main e a st = (Exit 1, st')"
  using assms startup_exit [OF assms] by (simp add: main_def)

lemma main_loop:
  assumes "startup e a st = Inr st1" and "control_event (engine_start e) = Some ev"
  shows "main e a st =
     (Exit 0,
      emit ([Log Info Entering_game_loop, Log_line, Engine_start] @
            (if engine_start e = Some KeyboardInterrupt then [Print []] else []) @
            [Log_line] @
            (if engine_start e = Some SystemCopyover then [Log Todo Copyover] else []) @
            [Hooks_run ''shutdown'', Log Info Exiting_normally, Log_shutdown]) st1)"
  using assms
  by (auto simp: main_def run_loop_def cleanup_def control_event_def Let_def
           split: option.splits exn.splits)

lemma main_uncaught:
  assumes "startup e a st = Inr st1" and "engine_start e = Some OtherException"
  shows "main e a st =
     (Uncaught OtherException, emit [Log Info Entering_game_loop, Log_line, Engine_start] st1)"
  using assms by (simp add: main_def run_loop_def Let_def)


lemma reaches_loop_iff: "reaches_loop e a st \<longleftrightarrow> (\<exists>st1. startup e a st = Inr st1)"
  by (simp add: reaches_loop_def split: sum.splits)



section \<open>When the run reaches the event loop\<close>

lemma enter_library_ok:
  assumes "path_exists e (realpath e (args_lib a))"
      and "path_exists e (os_path_join (realpath e (args_lib a)) ''muddata'') \<or>
           path_exists e (os_path_join (realpath e (args_lib a)) ''config'')"
  shows "\<exists>st1. enter_library e a st = Inr (realpath e (args_lib a), st1) \<and> same_ids st st1"
  using assms by (auto simp: enter_library_def Let_def same_ids_def)

lemma load_library_ok:
  assumes "path_exists e (os_path_join lib ''pymodules'')"
      and "path_exists e (os_path_join (os_path_join lib ''pymodules'') ''__init__.py'') \<or>
           (\<forall>fn. \<not> import_raises e fn)"
  shows "\<exists>st'. load_library e lib st = Inr st' \<and> same_ids st st'"
proof -
  have "\<exists>st'. load_library e lib st = Inr st'"
  proof (cases "path_exists e (os_path_join (os_path_join lib ''pymodules'') ''__init__.py'')")
    case True
    then show ?thesis
      using assms(1) by (simp add: load_library_def Let_def)
  next
    case False
    with assms(2) have "\<forall>(fn, p) \<in> set (discovered e (os_path_join lib ''pymodules'')
        (sort (listdir e (os_path_join lib ''pymodules'')))). \<not> import_raises e fn"
      by auto
    then show ?thesis
      using load_library_scan [OF refl assms(1) False, of st] by (simp add: load_plan_ok)
  qed
  then obtain st' where "load_library e lib st = Inr st'" by blast
  then show ?thesis
    using load_library_extends [of st e lib] by simp
qed

lemma reaches_loopI:
  assumes "path_exists e (realpath e (args_lib a))"
      and "path_exists e (os_path_join (realpath e (args_lib a)) ''muddata'') \<or>
           path_exists e (os_path_join (realpath e (args_lib a)) ''config'')"
      and "path_exists e (os_path_join (realpath e (args_lib a)) ''pymodules'')"
      and "path_exists e (os_path_join (os_path_join (realpath e (args_lib a)) ''pymodules'')
             ''__init__.py'') \<or> (\<forall>fn. \<not> import_raises e fn)"
      and "\<And>stx. do_uid e \<Longrightarrow> same_ids st stx \<Longrightarrow>
             \<exists>sty. assume_uid e (of_arg (args_uid a)) (of_arg (args_gid a))
                     (of_arg (args_umask a)) stx = Inr sty"
  shows "reaches_loop e a st"
proof -
  obtain st1 where 1: "enter_library e a st = Inr (realpath e (args_lib a), st1)" "same_ids st st1"
    using enter_library_ok [OF assms(1,2)] by blast
  define st1' where "st1' = configure a st1"
  have s1: "same_ids st st1'"
    using 1(2) configure_extends [of st1 a] by (auto simp: st1'_def intro: same_ids_trans)
  have "\<exists>st2. early_identity e a st1' = Inr st2 \<and> (\<not> (do_uid e \<and> args_early a) \<longrightarrow> st2 = st1')"
  proof (cases "do_uid e \<and> args_early a")
    case True
    have "same_ids st (emit [Call_assume_uid] st1')"
      using s1 by (simp add: same_ids_def)
    then show ?thesis
      using assms(5) True by (simp add: early_identity_def)
  next
    case False
    then show ?thesis by (auto simp: early_identity_def)
  qed
  then obtain st2 where 2: "early_identity e a st1' = Inr st2"
      "\<not> (do_uid e \<and> args_early a) \<longrightarrow> st2 = st1'"
    by blast
  define st2' where "st2' = compatibility e st2"
  obtain st3 where 3: "load_library e (realpath e (args_lib a)) st2' = Inr st3" "same_ids st2' st3"
    using load_library_ok [OF assms(3,4)] by blast
  define st3' where "st3' = register_signals e st3"
  have s3: "same_ids st2 st3'"
    using compatibility_extends [of st2 e] 3(2) register_signals_extends [of st3 e]
    by (auto simp: st2'_def st3'_def intro: same_ids_trans)
  have "\<exists>st4. late_identity e a st3' = Inr st4"
  proof (cases "do_uid e \<and> \<not> args_early a")
    case True
    then have "st2 = st1'" using 2(2) by simp
    then have "same_ids st (emit [Call_assume_uid] st3')"
      using s1 s3 by (simp add: same_ids_def)
    then show ?thesis
      using assms(5) True by (simp add: late_identity_def)
  next
    case False
    then show ?thesis by (auto simp: late_identity_def)
  qed
  then obtain st4 where "late_identity e a st3' = Inr st4" by blast
  then have "startup e a st = Inr st4"
    using 1(1) 2(1) 3(1) by (simp add: startup_def st1'_def st2'_def st3'_def)
  then show ?thesis
    by (simp add: reaches_loop_def)
qed

lemma example_identity:
  "proc_uid stx = 1000 \<Longrightarrow>
   assume_uid example_env (PStr ''mud'') PNone PNone stx = Inr stx"
  by (simp add: assume_uid_def umask_value_def value_or_setting_def py_int_def truthy_def
      example_env_def decimal_def digit_val_def step_defs)

lemma example_paths:
  "realpath example_env (args_lib example_args) = ''/srv/mud/lib''"
  "path_exists example_env ''/srv/mud/lib''"
  "path_exists example_env (os_path_join ''/srv/mud/lib'' ''muddata'')"
  "path_exists example_env (os_path_join ''/srv/mud/lib'' ''pymodules'')"
  by (simp_all add: example_env_def example_args_def os_path_join_def startswith_def endswith_def)

lemma example_reaches_loop_general:
  assumes "realpath e = realpath example_env" and "path_exists e = path_exists example_env"
      and "import_raises e = import_raises example_env"
      and "do_uid e \<Longrightarrow> getpwnam e = getpwnam example_env \<and> int_of_str e = int_of_str example_env \<and>
             settings_get e = settings_get example_env"
  shows "reaches_loop e example_args (started_as 1000)"
proof (rule reaches_loopI)
  show "path_exists e (realpath e (args_lib example_args))"
    by (simp add: assms(1,2) example_paths)
  show "path_exists e (os_path_join (realpath e (args_lib example_args)) ''muddata'') \<or>
      path_exists e (os_path_join (realpath e (args_lib example_args)) ''config'')"
    by (simp add: assms(1,2) example_paths)
  show "path_exists e (os_path_join (realpath e (args_lib example_args)) ''pymodules'')"
    by (simp add: assms(1,2) example_paths)
  show "path_exists e (os_path_join (os_path_join (realpath e (args_lib example_args)) ''pymodules'')
      ''__init__.py'') \<or> (\<forall>fn. \<not> import_raises e fn)"
    by (simp add: assms(3) example_env_def)
next
  fix stx
  assume d: "do_uid e" and "same_ids (started_as 1000) stx"
  then have p: "proc_uid stx = 1000"
    by (simp add: same_ids_def started_as_def)
  have "assume_uid e (PStr ''mud'') PNone PNone stx = Inr stx"
    using assms(4) [OF d] p
    by (simp add: assume_uid_def umask_value_def value_or_setting_def py_int_def truthy_def
      example_env_def decimal_def digit_val_def step_defs)
  then show "\<exists>sty. assume_uid e (of_arg (args_uid example_args)) (of_arg (args_gid example_args))
      (of_arg (args_umask example_args)) stx = Inr sty"
    by (simp add: example_args_def of_arg_def)
qed

lemma example_reaches_loop:
  "reaches_loop example_env example_args (started_as 1000)"
  "reaches_loop copyover_env example_args (started_as 1000)"
  "reaches_loop interrupted_env example_args (started_as 1000)"
  "reaches_loop nouid_env example_args (started_as 1000)"
  by (rule example_reaches_loop_general;
      simp add: copyover_env_def interrupted_env_def nouid_env_def)+


section \<open>The supervisor: the shutdown hooks\<close>





section \<open>The supervisor: which phase runs the identity transition\<close>

lemma main_tail:
  assumes "startup e a st = Inr st1"
  shows "\<exists>es. snd (main e a st) = emit es st1 \<and> identity_calls es = 0"
proof (cases "control_event (engine_start e)")
  case None
  then have "engine_start e = Some OtherException"
    by (auto simp: control_event_def split: option.splits exn.splits)
  then have "snd (main e a st) = emit [Log Info Entering_game_loop, Log_line, Engine_start] st1"
    using main_uncaught [OF assms] by simp
  moreover have "identity_calls [Log Info Entering_game_loop, Log_line, Engine_start] = 0"
    by (simp add: identity_calls_def)
  ultimately show ?thesis by blast
next
  case (Some ev)
  define es where "es = [Log Info Entering_game_loop, Log_line, Engine_start] @
            (if engine_start e = Some KeyboardInterrupt then [Print []] else []) @
            [Log_line] @
            (if engine_start e = Some SystemCopyover then [Log Todo Copyover] else []) @
            [Hooks_run ''shutdown'', Log Info Exiting_normally, Log_shutdown]"
  have "snd (main e a st) = emit es st1"
    using main_loop [OF assms Some] by (simp add: es_def)
  moreover have "identity_calls es = 0"
    by (simp add: es_def identity_calls_def)
  ultimately show ?thesis by blast
qed

lemma main_identity_calls:
  "identity_calls (events_since st (snd (main e a st))) \<le> 1 \<and>
   (\<not> do_uid e \<longrightarrow> identity_calls (events_since st (snd (main e a st))) = 0) \<and>
   (do_uid e \<and> reaches_loop e a st \<longrightarrow>
      identity_calls (events_since st (snd (main e a st))) = 1)"
proof -
  obtain c where c: "run_part c st (final (startup e a st))" "c \<le> 1" "\<not> do_uid e \<longrightarrow> c = 0"
      "(\<exists>st'. startup e a st = Inr st') \<and> do_uid e \<longrightarrow> c = 1"
    using startup_part by blast
  show ?thesis
  proof (cases "startup e a st")
    case (Inl h)
    obtain out st' where h: "h = (out, st')" by (cases h)
    have "snd (main e a st) = st'"
      using main_exit [of e a st out st'] Inl h by simp
    then show ?thesis
      using c Inl h by (simp add: run_part_def reaches_loop_def)
  next
    case (Inr st1)
    obtain es where es: "snd (main e a st) = emit es st1" "identity_calls es = 0"
      using main_tail [OF Inr] by blast
    have "extends (\<lambda>ev. startup_event ev \<or> ev = Call_assume_uid) st st1"
      using c(1) Inr by (simp add: run_part_def)
    then have "trace st1 = trace st @ events_since st st1"
      by (simp add: extendsD)
    then have "trace (snd (main e a st)) = trace st @ (events_since st st1 @ es)"
      by (simp add: es(1))
    then have "events_since st (snd (main e a st)) = events_since st st1 @ es"
      by (rule events_since_emit)
    then have "identity_calls (events_since st (snd (main e a st))) = c"
      using c(1) Inr es(2) by (simp add: run_part_def)
    then show ?thesis
      using c Inr by (auto simp: reaches_loop_def)
  qed
qed

text \<open>
  Claim C9, as amended. No run calls \<^verbatim>\<open>assume_uid\<close> more than once. A run on a platform
  with \<^verbatim>\<open>os.getuid\<close> that reaches the event loop calls it exactly once; a run on a
  platform without \<^verbatim>\<open>os.getuid\<close> never calls it. The phase that calls it is the one
  the switch selects: with \<^verbatim>\<open>--early\<close> the late phase leaves the state as it is, without
  it the early phase does, and the selected phase is the call of \<^verbatim>\<open>assume_uid\<close> with
  the arguments of the command line.
\<close>

theorem identity_phase_selection:
  "identity_calls (events_since st (snd (main e a st))) \<le> 1 \<and>
   (\<not> do_uid e \<longrightarrow> identity_calls (events_since st (snd (main e a st))) = 0) \<and>
   (do_uid e \<and> reaches_loop e a st \<longrightarrow>
      identity_calls (events_since st (snd (main e a st))) = 1) \<and>
   (args_early a \<longrightarrow> late_identity e a st' = Inr st') \<and>
   (\<not> args_early a \<longrightarrow> early_identity e a st' = Inr st') \<and>
   (do_uid e \<and> args_early a \<longrightarrow>
      early_identity e a st' =
        assume_uid e (of_arg (args_uid a)) (of_arg (args_gid a)) (of_arg (args_umask a))
          (emit [Call_assume_uid] st')) \<and>
   (do_uid e \<and> \<not> args_early a \<longrightarrow>
      late_identity e a st' =
        assume_uid e (of_arg (args_uid a)) (of_arg (args_gid a)) (of_arg (args_umask a))
          (emit [Call_assume_uid] st'))"
  using main_identity_calls [of st e a]
  by (simp add: early_identity_def late_identity_def)

text \<open>Witness for C9: the example run (late identity, the user \<^verbatim>\<open>mud\<close>).\<close>

theorem identity_phase_selection_witness:
  "do_uid example_env \<and> \<not> args_early example_args \<and>
   reaches_loop example_env example_args (started_as 1000) \<and>
   identity_calls (events_since (started_as 1000)
     (snd (main example_env example_args (started_as 1000)))) = 1 \<and>
   early_identity example_env example_args (started_as 1000) = Inr (started_as 1000) \<and>
   late_identity example_env example_args (started_as 1000) =
     Inr (emit [Call_assume_uid] (started_as 1000))"
proof -
  have d: "do_uid example_env" "\<not> args_early example_args"
    by (simp_all add: example_env_def example_args_def)
  have "assume_uid example_env (of_arg (args_uid example_args)) (of_arg (args_gid example_args))
      (of_arg (args_umask example_args)) (emit [Call_assume_uid] (started_as 1000)) =
      Inr (emit [Call_assume_uid] (started_as 1000))"
    by (simp add: example_args_def of_arg_def example_identity started_as_def)
  then show ?thesis
    using identity_phase_selection [of "started_as 1000" example_env example_args "started_as 1000"]
      d example_reaches_loop(1)
    by simp
qed

text \<open>Counterexample to C9 as stated: on a platform without \<^verbatim>\<open>os.getuid\<close> the run goes
  through both phases, reaches the event loop and exits with status 0, and neither phase
  has called \<^verbatim>\<open>assume_uid\<close>.\<close>

theorem no_getuid_counterexample:
  "\<not> do_uid nouid_env \<and>
   reaches_loop nouid_env example_args (started_as 1000) \<and>
   fst (main nouid_env example_args (started_as 1000)) = Exit 0 \<and>
   identity_calls (events_since (started_as 1000)
     (snd (main nouid_env example_args (started_as 1000)))) = 0"
proof -
  have d: "\<not> do_uid nouid_env"
    by (simp add: nouid_env_def)
  obtain st1 where st1: "startup nouid_env example_args (started_as 1000) = Inr st1"
    using example_reaches_loop(4) by (auto simp: reaches_loop_iff)
  have "control_event (engine_start nouid_env) = Some Normal"
    by (simp add: control_event_def nouid_env_def example_env_def)
  then have "fst (main nouid_env example_args (started_as 1000)) = Exit 0"
    using main_loop [OF st1] by simp
  then show ?thesis
    using d example_reaches_loop(4) main_identity_calls [of "started_as 1000" nouid_env example_args]
    by simp
qed


section \<open>The supervisor: the exit status\<close>










section \<open>The signal handler and the copyover request\<close>





end
